theory Spec2Isabelle
  imports Main "HOL-Library.AList" "HOL-Library.Sublist" "HOL-Library.Char_ord"
    "HOL-Library.List_Lexorder"
begin

section \<open>The file tree the program works on\<close>

text \<open>
  The scanner (\<^verbatim>\<open>main.go\<close>) only moves files around and starts external tools, so the
  model is a file tree, a log of what the program did, and the Go functions as
  transformers of both.

  A path is the list of its components, already cleaned (no \<^verbatim>\<open>.\<close> or \<^verbatim>\<open>..\<close>), read
  from the directory the process runs in, which is the root of the tree. A directory
  holds its entries as an association list from names to nodes.
\<close>

type_synonym path = "string list"

datatype node = File string | Dir "(string \<times> node) list"

datatype errno = ENOENT | ENOTDIR | EISDIR | EEXIST | EINVAL | EACCES | EIO

text \<open>Resolving a path: a missing component is \<open>ENOENT\<close>, a file in the middle of the
  path is \<open>ENOTDIR\<close>.\<close>

fun lookup :: "node \<Rightarrow> path \<Rightarrow> errno + node" where
  "lookup n [] = Inr n"
| "lookup (File _) (c # cs) = Inl ENOTDIR"
| "lookup (Dir es) (c # cs) =
     (case map_of es c of None \<Rightarrow> Inl ENOENT | Some m \<Rightarrow> lookup m cs)"

text \<open>\<^verbatim>\<open>os.MkdirAll\<close>: creates the directory and every missing parent; nothing to do
  when the directory is there; an error when a file is in the way.\<close>

fun mkdirAll :: "node \<Rightarrow> path \<Rightarrow> errno + node" where
  "mkdirAll (File c) p = Inl ENOTDIR"
| "mkdirAll (Dir es) [] = Inr (Dir es)"
| "mkdirAll (Dir es) (c # cs) =
     (case mkdirAll (case map_of es c of None \<Rightarrow> Dir [] | Some m \<Rightarrow> m) cs of
        Inl e \<Rightarrow> Inl e
      | Inr m' \<Rightarrow> Inr (Dir (AList.update c m' es)))"

text \<open>\<^verbatim>\<open>os.RemoveAll\<close>: removes the entry and all it contains; a path that is not
  there is not an error.\<close>

fun removeAll_node :: "node \<Rightarrow> path \<Rightarrow> errno + node" where
  "removeAll_node n [] = Inl EINVAL"
| "removeAll_node (File c) (x # xs) = Inl ENOTDIR"
| "removeAll_node (Dir es) [c] = Inr (Dir (AList.delete c es))"
| "removeAll_node (Dir es) (c # d # ds) =
     (case map_of es c of
        None \<Rightarrow> Inr (Dir es)
      | Some m \<Rightarrow>
          (case removeAll_node m (d # ds) of
             Inl e \<Rightarrow> Inl e
           | Inr m' \<Rightarrow> Inr (Dir (AList.update c m' es))))"

text \<open>Storing a node under a path whose parent directory exists.\<close>

fun put :: "node \<Rightarrow> path \<Rightarrow> node \<Rightarrow> errno + node" where
  "put r [] n = Inl EINVAL"
| "put (File _) (c # cs) n = Inl ENOTDIR"
| "put (Dir es) [c] n = Inr (Dir (AList.update c n es))"
| "put (Dir es) (c # d # ds) n =
     (case map_of es c of
        None \<Rightarrow> Inl ENOENT
      | Some m \<Rightarrow>
          (case put m (d # ds) n of
             Inl e \<Rightarrow> Inl e
           | Inr m' \<Rightarrow> Inr (Dir (AList.update c m' es))))"

text \<open>\<^verbatim>\<open>os.Create\<close>: creates the file or truncates the one that is there; a directory
  of that name is an error.\<close>

definition create :: "node \<Rightarrow> path \<Rightarrow> errno + node" where
  "create r p =
     (case lookup r p of
        Inr (Dir _) \<Rightarrow> Inl EISDIR
      | _ \<Rightarrow> put r p (File ''''))"

text \<open>\<^verbatim>\<open>os.ReadDir\<close>: the names of the entries, sorted by file name.\<close>

definition readDir :: "node \<Rightarrow> path \<Rightarrow> errno + string list" where
  "readDir r p =
     (case lookup r p of
        Inl e \<Rightarrow> Inl e
      | Inr (File _) \<Rightarrow> Inl ENOTDIR
      | Inr (Dir es) \<Rightarrow> Inr (sort (remdups (map fst es))))"

text \<open>\<^verbatim>\<open>os.Rename\<close>: the source must exist; Go refuses a destination that is a
  directory (\<open>EEXIST\<close>), also when it is the source itself; a file replaces a file;
  nothing moves into its own subtree.\<close>

definition rename :: "node \<Rightarrow> path \<Rightarrow> path \<Rightarrow> errno + node" where
  "rename r src dst =
     (case lookup r src of
        Inl e \<Rightarrow> Inl e
      | Inr n \<Rightarrow>
          (case lookup r dst of
             Inr (Dir _) \<Rightarrow> Inl EEXIST
           | Inr (File _) \<Rightarrow>
               if src = dst then Inr r
               else
                 (case n of
                    Dir _ \<Rightarrow> Inl ENOTDIR
                  | File _ \<Rightarrow>
                      (case removeAll_node r src of
                         Inl e \<Rightarrow> Inl e
                       | Inr r' \<Rightarrow> put r' dst n))
           | Inl ENOENT \<Rightarrow>
               if src = [] \<or> prefix src dst then Inl EINVAL
               else
                 (case removeAll_node r src of
                    Inl e \<Rightarrow> Inl e
                  | Inr r' \<Rightarrow> put r' dst n)
           | Inl e \<Rightarrow> Inl e))"

section \<open>Paths and strings\<close>

definition filepath_Join :: "path \<Rightarrow> string \<Rightarrow> path" where
  "filepath_Join dir name = dir @ [name]"

definition filepath_Dir :: "path \<Rightarrow> path" where
  "filepath_Dir p = butlast p"

text \<open>\<^verbatim>\<open>filepath.Ext\<close>: the suffix that starts at the last dot of the last element of
  the path, empty when that element has no dot. The loop of the Go library walks back
  from the end of the string and stops at a separator.\<close>

fun ext_loop :: "string \<Rightarrow> nat \<Rightarrow> string" where
  "ext_loop s 0 = ''''"
| "ext_loop s (Suc i) =
     (if s ! i = CHR ''/'' then ''''
      else if s ! i = CHR ''.'' then drop i s
      else ext_loop s i)"

definition filepath_Ext :: "string \<Rightarrow> string" where
  "filepath_Ext s = ext_loop s (length s)"

definition strings_TrimSuffix :: "string \<Rightarrow> string \<Rightarrow> string" where
  "strings_TrimSuffix s suf =
     (if suffix suf s then take (length s - length suf) s else s)"

text \<open>The report path of the scan,
  \<^verbatim>\<open>strings.TrimSuffix(sbomPath, filepath.Ext(sbomPath)) + "-vulnerabilities.json"\<close>:
  the two string functions only touch the last element of the path.\<close>

definition report_path :: "path \<Rightarrow> path" where
  "report_path sbomPath =
     (case rev sbomPath of
        [] \<Rightarrow> [''-vulnerabilities.json'']
      | c # _ \<Rightarrow>
          butlast sbomPath @ [strings_TrimSuffix c (filepath_Ext c) @ ''-vulnerabilities.json''])"

text \<open>A path as it is written into a command line.\<close>

definition path_str :: "path \<Rightarrow> string" where
  "path_str p = concat (map (\<lambda>c. CHR ''/'' # c) p)"

section \<open>Processes, errors, the log\<close>

text \<open>How a started command ends: it exits with a code, it is killed by a signal, or
  it could not be started at all. \<^verbatim>\<open>exec.Cmd\<close> turns that into \<^verbatim>\<open>nil\<close>, an
  \<^verbatim>\<open>*exec.ExitError\<close> (whose \<^verbatim>\<open>ExitCode()\<close> is \<open>-1\<close> after a signal) or another
  error.\<close>

datatype proc_outcome = Exited nat | Killed | LaunchFailure

datatype exec_err = ExitError int | StartError

definition wait_err :: "proc_outcome \<Rightarrow> exec_err option" where
  "wait_err oc =
     (case oc of
        Exited n \<Rightarrow> if n = 0 then None else Some (ExitError (int n))
      | Killed \<Rightarrow> Some (ExitError (- 1))
      | LaunchFailure \<Rightarrow> Some StartError)"

datatype sink = Captured | ToFile path | Terminal

record command =
  cmd_name :: string
  cmd_args :: "string list"
  cmd_dir :: "path option"
  cmd_stdout :: sink
  cmd_stderr :: sink

text \<open>The errors the program builds with \<^verbatim>\<open>fmt.Errorf\<close>, one constructor for each
  format string, in the order of the source.\<close>

datatype error =
    OsError errno
  | CreateDestDirFailed errno
  | OpenSourceFailed errno
  | CreateDestFileFailed errno
  | CopyFailed errno
  | AbsPathFailed errno
  | MavenCommandFailed exec_err string
  | EffectivePomFailed exec_err string
  | CreateTargetDirFailed errno
  | CycloneDXFailed exec_err string
  | MoveSBOMFailed errno
  | SBOMNotFound path
  | CreateOutputFailed errno
  | VulnerabilitiesFound path
  | OSVScannerError exec_err
  | NoPackageManager
  | UnsupportedOS string
  | InstallMavenFailed exec_err
  | InstallOSVFailed exec_err

datatype message =
    DepTreeWritten path
  | EffectivePomWritten path
  | CleanupTargetFailed errno
  | BOMWritten path
  | VulnerabilitiesWarning path
  | ReportWritten path
  | MavenNotInstalled
  | InstallingMavenHomebrew
  | InstallingMavenPackageManager
  | MavenInstalled
  | MavenAlreadyInstalled
  | OSVNotInstalled
  | InstallingOSV
  | OSVInstalled
  | OSVAlreadyInstalled
  | DependencyCheckFailed error
  | AllDependenciesInstalled
  | PomNotFound path
  | CreateDirFailed errno
  | CleanDirFailed error
  | CopyPomFailed error
  | CopyingPom
  | TaskName string
  | TaskError string error
  | ProcessCompleted

datatype level = Info | Warn | Fatal

datatype event =
    Log level message
  | Exec command proc_outcome
  | Usage
  | NewBar int
  | BarSet int
  | BarClear
  | Println
  | PrintCompleted
  | Sleep

record world =
  fs :: node
  trace :: "event list"

definition emit :: "event \<Rightarrow> world \<Rightarrow> world" where
  "emit e w = w\<lparr>trace := trace w @ [e]\<rparr>"

section \<open>What the program cannot see\<close>

text \<open>
  The external tools are opaque: \<open>tool\<close> says how a command ends, what it prints and
  what it leaves in the file tree. \<open>fault\<close> makes a call of package \<^verbatim>\<open>os\<close> fail for a
  reason the tree does not show (permissions, a full disk). A call that fails changes
  nothing in the model; Go's \<^verbatim>\<open>os.RemoveAll\<close> may have removed a part of the
  directory before it reports its error, so the tree the model shows after a failed
  removal is an upper bound of the tree that is left. \<open>lookPath\<close> and \<open>goos\<close> are
  \<^verbatim>\<open>exec.LookPath\<close> and \<^verbatim>\<open>runtime.GOOS\<close>.
\<close>

datatype os_call =
    Abs path
  | MkdirAll path
  | Open path
  | Create path
  | Copy path path
  | Rename path path
  | RemoveAll path
  | ReadDir path

record env =
  tool :: "command \<Rightarrow> node \<Rightarrow> proc_outcome \<times> string \<times> node"
  fault :: "os_call \<Rightarrow> errno option"
  lookPath :: "string \<Rightarrow> bool"
  goos :: string

definition os_call :: "env \<Rightarrow> os_call \<Rightarrow> (node \<Rightarrow> errno + node) \<Rightarrow> world \<Rightarrow> errno option \<times> world" where
  "os_call env c f w =
     (case fault env c of
        Some e \<Rightarrow> (Some e, w)
      | None \<Rightarrow>
          (case f (fs w) of
             Inl e \<Rightarrow> (Some e, w)
           | Inr r \<Rightarrow> (None, w\<lparr>fs := r\<rparr>)))"

definition filepath_Abs :: "env \<Rightarrow> path \<Rightarrow> errno + path" where
  "filepath_Abs env p = (case fault env (Abs p) of Some e \<Rightarrow> Inl e | None \<Rightarrow> Inr p)"

text \<open>\<^verbatim>\<open>os.Stat\<close> reads the tree only: its errors are the two of \<open>lookup\<close>, and
  the errors a real file system adds for a path that is not there (a name too long, a
  directory that may not be searched, a loop of links) are not modelled.
  \<^verbatim>\<open>os.IsNotExist\<close> holds of \<open>ENOENT\<close> alone.\<close>

definition os_Stat :: "path \<Rightarrow> world \<Rightarrow> errno option" where
  "os_Stat p w = (case lookup (fs w) p of Inl e \<Rightarrow> Some e | Inr _ \<Rightarrow> None)"

definition os_IsNotExist :: "errno option \<Rightarrow> bool" where
  "os_IsNotExist err = (err = Some ENOENT)"

definition os_MkdirAll :: "env \<Rightarrow> path \<Rightarrow> world \<Rightarrow> errno option \<times> world" where
  "os_MkdirAll env p = os_call env (MkdirAll p) (\<lambda>r. mkdirAll r p)"

definition os_RemoveAll :: "env \<Rightarrow> path \<Rightarrow> world \<Rightarrow> errno option \<times> world" where
  "os_RemoveAll env p = os_call env (RemoveAll p) (\<lambda>r. removeAll_node r p)"

definition os_Rename :: "env \<Rightarrow> path \<Rightarrow> path \<Rightarrow> world \<Rightarrow> errno option \<times> world" where
  "os_Rename env src dst = os_call env (Rename src dst) (\<lambda>r. rename r src dst)"

definition os_Create :: "env \<Rightarrow> path \<Rightarrow> world \<Rightarrow> errno option \<times> world" where
  "os_Create env p = os_call env (Create p) (\<lambda>r. create r p)"

text \<open>\<^verbatim>\<open>os.Open\<close> succeeds on a file and on a directory.\<close>

definition os_Open :: "env \<Rightarrow> path \<Rightarrow> world \<Rightarrow> errno option \<times> world" where
  "os_Open env p =
     os_call env (Open p) (\<lambda>r. case lookup r p of Inl e \<Rightarrow> Inl e | Inr _ \<Rightarrow> Inr r)"

text \<open>\<^verbatim>\<open>io.Copy(dst, src)\<close> from the opened source into the created destination:
  reading a directory fails.\<close>

definition io_Copy :: "env \<Rightarrow> path \<Rightarrow> path \<Rightarrow> world \<Rightarrow> errno option \<times> world" where
  "io_Copy env dst src =
     os_call env (Copy dst src)
       (\<lambda>r. case lookup r src of
              Inl e \<Rightarrow> Inl e
            | Inr (Dir _) \<Rightarrow> Inl EISDIR
            | Inr (File c) \<Rightarrow> put r dst (File c))"

definition os_ReadDir :: "env \<Rightarrow> path \<Rightarrow> world \<Rightarrow> errno + string list" where
  "os_ReadDir env p w =
     (case fault env (ReadDir p) of Some e \<Rightarrow> Inl e | None \<Rightarrow> readDir (fs w) p)"

text \<open>Starting a command is logged, with the way it ended, whether it starts or not;
  a command that could not be started has not touched the tree.\<close>

definition start :: "env \<Rightarrow> command \<Rightarrow> world \<Rightarrow> proc_outcome \<times> string \<times> world" where
  "start env c w =
     (case tool env c (fs w) of
        (LaunchFailure, _, _) \<Rightarrow> (LaunchFailure, '''', emit (Exec c LaunchFailure) w)
      | (oc, out, r) \<Rightarrow> (oc, out, (emit (Exec c oc) w)\<lparr>fs := r\<rparr>))"

definition cmd_CombinedOutput :: "env \<Rightarrow> command \<Rightarrow> world \<Rightarrow> exec_err option \<times> string \<times> world" where
  "cmd_CombinedOutput env c w = (case start env c w of (oc, out, w1) \<Rightarrow> (wait_err oc, out, w1))"

definition cmd_Run :: "env \<Rightarrow> command \<Rightarrow> world \<Rightarrow> exec_err option \<times> world" where
  "cmd_Run env c w = (case start env c w of (oc, out, w1) \<Rightarrow> (wait_err oc, w1))"

section \<open>The functions of \<^verbatim>\<open>main.go\<close>\<close>

text \<open>Each function takes the world and returns its Go result (\<open>None\<close> is \<^verbatim>\<open>nil\<close>)
  with the world it leaves.\<close>

definition copyFile :: "env \<Rightarrow> path \<Rightarrow> path \<Rightarrow> world \<Rightarrow> error option \<times> world" where
  "copyFile env src dst w =
     (case os_MkdirAll env (filepath_Dir dst) w of
        (Some e, w1) \<Rightarrow> (Some (CreateDestDirFailed e), w1)
      | (None, w1) \<Rightarrow>
     (case os_Open env src w1 of
        (Some e, w2) \<Rightarrow> (Some (OpenSourceFailed e), w2)
      | (None, w2) \<Rightarrow>
     (case os_Create env dst w2 of
        (Some e, w3) \<Rightarrow> (Some (CreateDestFileFailed e), w3)
      | (None, w3) \<Rightarrow>
     (case io_Copy env dst src w3 of
        (Some e, w4) \<Rightarrow> (Some (CopyFailed e), w4)
      | (None, w4) \<Rightarrow> (None, w4)))))"

definition dependency_tree_cmd :: "path \<Rightarrow> path \<Rightarrow> command" where
  "dependency_tree_cmd absPomPath absOutputPath =
     \<lparr>cmd_name = ''mvn'',
      cmd_args = [''dependency:tree'', ''-f'', path_str absPomPath,
                  ''-DoutputFile='' @ path_str absOutputPath, ''-DoutputType=text''],
      cmd_dir = Some (filepath_Dir absOutputPath),
      cmd_stdout = Captured, cmd_stderr = Captured\<rparr>"

definition runMavenCommand :: "env \<Rightarrow> path \<Rightarrow> path \<Rightarrow> world \<Rightarrow> error option \<times> world" where
  "runMavenCommand env pomPath outputPath w =
     (case filepath_Abs env pomPath of
        Inl e \<Rightarrow> (Some (AbsPathFailed e), w)
      | Inr absPomPath \<Rightarrow>
     (case filepath_Abs env outputPath of
        Inl e \<Rightarrow> (Some (AbsPathFailed e), w)
      | Inr absOutputPath \<Rightarrow>
     (case cmd_CombinedOutput env (dependency_tree_cmd absPomPath absOutputPath) w of
        (Some err, output, w1) \<Rightarrow> (Some (MavenCommandFailed err output), w1)
      | (None, output, w1) \<Rightarrow> (None, emit (Log Info (DepTreeWritten outputPath)) w1))))"

definition effective_pom_cmd :: "path \<Rightarrow> path \<Rightarrow> command" where
  "effective_pom_cmd absPomPath absOutputPath =
     \<lparr>cmd_name = ''mvn'',
      cmd_args = [''help:effective-pom'', ''-f'', path_str absPomPath,
                  ''-Doutput='' @ path_str absOutputPath],
      cmd_dir = Some (filepath_Dir absOutputPath),
      cmd_stdout = Captured, cmd_stderr = Captured\<rparr>"

definition getEffectivePom :: "env \<Rightarrow> path \<Rightarrow> path \<Rightarrow> world \<Rightarrow> error option \<times> world" where
  "getEffectivePom env pomPath outputPath w =
     (case filepath_Abs env pomPath of
        Inl e \<Rightarrow> (Some (AbsPathFailed e), w)
      | Inr absPomPath \<Rightarrow>
     (case filepath_Abs env outputPath of
        Inl e \<Rightarrow> (Some (AbsPathFailed e), w)
      | Inr absOutputPath \<Rightarrow>
     (case cmd_CombinedOutput env (effective_pom_cmd absPomPath absOutputPath) w of
        (Some err, output, w1) \<Rightarrow> (Some (EffectivePomFailed err output), w1)
      | (None, output, w1) \<Rightarrow> (None, emit (Log Info (EffectivePomWritten outputPath)) w1))))"

definition cyclonedx_cmd :: "path \<Rightarrow> path \<Rightarrow> command" where
  "cyclonedx_cmd absPomPath outputDir =
     \<lparr>cmd_name = ''mvn'',
      cmd_args = [''org.cyclonedx:cyclonedx-maven-plugin:2.7.9:makeAggregateBom'',
                  ''-f'', path_str absPomPath, ''-DoutputFormat=xml'', ''-DoutputFile=bom.xml''],
      cmd_dir = Some outputDir,
      cmd_stdout = Captured, cmd_stderr = Captured\<rparr>"

definition generateCycloneDX :: "env \<Rightarrow> path \<Rightarrow> path \<Rightarrow> world \<Rightarrow> error option \<times> world" where
  "generateCycloneDX env pomPath outputPath w =
     (case filepath_Abs env pomPath of
        Inl e \<Rightarrow> (Some (AbsPathFailed e), w)
      | Inr absPomPath \<Rightarrow>
     (case filepath_Abs env outputPath of
        Inl e \<Rightarrow> (Some (AbsPathFailed e), w)
      | Inr absOutputPath \<Rightarrow>
     (let outputDir = filepath_Dir absOutputPath;
          targetDir = filepath_Join outputDir ''target''
      in
     (case os_MkdirAll env targetDir w of
        (Some e, w1) \<Rightarrow> (Some (CreateTargetDirFailed e), w1)
      | (None, w1) \<Rightarrow>
     (case cmd_CombinedOutput env (cyclonedx_cmd absPomPath outputDir) w1 of
        (Some err, output, w2) \<Rightarrow> (Some (CycloneDXFailed err output), w2)
      | (None, output, w2) \<Rightarrow>
     (let srcPath = filepath_Join targetDir ''bom.xml'' in
     (case os_Rename env srcPath absOutputPath w2 of
        (Some e, w3) \<Rightarrow> (Some (MoveSBOMFailed e), w3)
      | (None, w3) \<Rightarrow>
     (case os_RemoveAll env targetDir w3 of
        (Some e, w4) \<Rightarrow>
          (None, emit (Log Info (BOMWritten outputPath))
                   (emit (Log Warn (CleanupTargetFailed e)) w4))
      | (None, w4) \<Rightarrow> (None, emit (Log Info (BOMWritten outputPath)) w4)))))))))"

text \<open>Check for exit status 1.\<close>

definition isExitStatus1 :: "exec_err option \<Rightarrow> bool" where
  "isExitStatus1 err =
     (case err of Some (ExitError exitCode) \<Rightarrow> exitCode = 1 | _ \<Rightarrow> False)"

definition osv_scanner_cmd :: "path \<Rightarrow> path \<Rightarrow> command" where
  "osv_scanner_cmd absSbomPath absOutputPath =
     \<lparr>cmd_name = ''osv-scanner'',
      cmd_args = [''--sbom'', path_str absSbomPath, ''--format'', ''json''],
      cmd_dir = None,
      cmd_stdout = ToFile absOutputPath, cmd_stderr = Terminal\<rparr>"

definition runOSVScanner :: "env \<Rightarrow> path \<Rightarrow> bool \<Rightarrow> world \<Rightarrow> error option \<times> world" where
  "runOSVScanner env sbomPath exitOnVuln w =
     (case filepath_Abs env sbomPath of
        Inl e \<Rightarrow> (Some (AbsPathFailed e), w)
      | Inr absSbomPath \<Rightarrow>
     (if os_IsNotExist (os_Stat absSbomPath w) then (Some (SBOMNotFound absSbomPath), w)
      else
     (let outputPath = report_path sbomPath in
     (case filepath_Abs env outputPath of
        Inl e \<Rightarrow> (Some (AbsPathFailed e), w)
      | Inr absOutputPath \<Rightarrow>
     (case os_Create env absOutputPath w of
        (Some e, w1) \<Rightarrow> (Some (CreateOutputFailed e), w1)
      | (None, w1) \<Rightarrow>
     (case cmd_Run env (osv_scanner_cmd absSbomPath absOutputPath) w1 of
        (err, w2) \<Rightarrow>
          if isExitStatus1 err then
            (if exitOnVuln then (Some (VulnerabilitiesFound outputPath), w2)
             else (None, emit (Log Warn (VulnerabilitiesWarning outputPath)) w2))
          else
            (case err of
               Some e \<Rightarrow> (Some (OSVScannerError e), w2)
             | None \<Rightarrow> (None, emit (Log Info (ReportWritten outputPath)) w2))))))))"

definition install_cmd :: "string \<Rightarrow> string list \<Rightarrow> command" where
  "install_cmd prog args =
     \<lparr>cmd_name = prog, cmd_args = args, cmd_dir = None,
      cmd_stdout = Terminal, cmd_stderr = Terminal\<rparr>"

text \<open>\<^verbatim>\<open>checkDependencies\<close>: looks for Maven and the OSV scanner and installs what is
  missing. The first half leaves either with an error or with the world in which the
  second half runs.\<close>

definition check_maven :: "env \<Rightarrow> world \<Rightarrow> error option \<times> world" where
  "check_maven env w =
     (if \<not> lookPath env ''mvn'' then
        (let w1 = emit (Log Warn MavenNotInstalled) w in
         (case (if goos env = ''darwin'' then
                  Inr (install_cmd ''brew'' [''install'', ''maven''],
                       emit (Log Info InstallingMavenHomebrew) w1)
                else if goos env = ''linux'' then
                  (let w2 = emit (Log Info InstallingMavenPackageManager) w1 in
                   if lookPath env ''apt-get'' then
                     Inr (install_cmd ''sudo'' [''apt-get'', ''install'', ''-y'', ''maven''], w2)
                   else if lookPath env ''yum'' then
                     Inr (install_cmd ''sudo'' [''yum'', ''install'', ''-y'', ''maven''], w2)
                   else Inl (NoPackageManager, w2))
                else Inl (UnsupportedOS (goos env), w1)) of
            Inl (err, w2) \<Rightarrow> (Some err, w2)
          | Inr (cmd, w2) \<Rightarrow>
              (case cmd_Run env cmd w2 of
                 (Some e, w3) \<Rightarrow> (Some (InstallMavenFailed e), w3)
               | (None, w3) \<Rightarrow> (None, emit (Log Info MavenInstalled) w3))))
      else (None, emit (Log Info MavenAlreadyInstalled) w))"

definition check_osv :: "env \<Rightarrow> world \<Rightarrow> error option \<times> world" where
  "check_osv env w =
     (if \<not> lookPath env ''osv-scanner'' then
        (let w1 = emit (Log Info InstallingOSV) (emit (Log Warn OSVNotInstalled) w) in
         (case cmd_Run env
                 (install_cmd ''go''
                    [''install'', ''github.com/google/osv-scanner/cmd/osv-scanner@latest'']) w1 of
            (Some e, w2) \<Rightarrow> (Some (InstallOSVFailed e), w2)
          | (None, w2) \<Rightarrow> (None, emit (Log Info OSVInstalled) w2)))
      else (None, emit (Log Info OSVAlreadyInstalled) w))"

definition checkDependencies :: "env \<Rightarrow> world \<Rightarrow> error option \<times> world" where
  "checkDependencies env w =
     (case check_maven env w of
        (Some err, w1) \<Rightarrow> (Some err, w1)
      | (None, w1) \<Rightarrow> check_osv env w1)"

text \<open>\<^verbatim>\<open>cleanDirectory\<close>: removes every entry of the directory, in the order
  \<^verbatim>\<open>os.ReadDir\<close> lists them, and stops at the first entry it cannot remove.\<close>

fun remove_entries :: "env \<Rightarrow> path \<Rightarrow> string list \<Rightarrow> world \<Rightarrow> error option \<times> world" where
  "remove_entries env dir [] w = (None, w)"
| "remove_entries env dir (entry # entries) w =
     (case os_RemoveAll env (filepath_Join dir entry) w of
        (Some e, w1) \<Rightarrow> (Some (OsError e), w1)
      | (None, w1) \<Rightarrow> remove_entries env dir entries w1)"

definition cleanDirectory :: "env \<Rightarrow> path \<Rightarrow> world \<Rightarrow> error option \<times> world" where
  "cleanDirectory env dir w =
     (case os_ReadDir env dir w of
        Inl e \<Rightarrow> (Some (OsError e), w)
      | Inr entries \<Rightarrow> remove_entries env dir entries w)"

section \<open>\<^verbatim>\<open>main\<close>\<close>

text \<open>The flags after \<^verbatim>\<open>flag.Parse()\<close>.\<close>

record flags =
  pomFile :: path
  outputDir :: path
  exitOnVuln :: bool
  showHelp :: bool
  check :: bool

record task =
  name :: string
  action :: "world \<Rightarrow> error option \<times> world"
  progress :: int

text \<open>\<^verbatim>\<open>logger.Fatalf\<close> writes the entry and ends the process with status 1.\<close>

definition logger_Fatalf :: "message \<Rightarrow> world \<Rightarrow> int \<times> world" where
  "logger_Fatalf m w = (1, emit (Log Fatal m) w)"

text \<open>Lines 342 to 360 of \<^verbatim>\<open>main\<close>: the output directory is made, emptied, and the
  POM file copied into it. The result is the entry \<^verbatim>\<open>main\<close> dies with, if any.\<close>

definition stage_artifacts :: "env \<Rightarrow> path \<Rightarrow> path \<Rightarrow> world \<Rightarrow> message option \<times> world" where
  "stage_artifacts env pom out w =
     (case os_MkdirAll env out w of
        (Some e, w1) \<Rightarrow> (Some (CreateDirFailed e), w1)
      | (None, w1) \<Rightarrow>
     (case cleanDirectory env out w1 of
        (Some err, w2) \<Rightarrow> (Some (CleanDirFailed err), w2)
      | (None, w2) \<Rightarrow>
     (case copyFile env pom (filepath_Join out ''pom.xml'') w2 of
        (Some err, w3) \<Rightarrow> (Some (CopyPomFailed err), w3)
      | (None, w3) \<Rightarrow> (None, w3))))"

definition tasks :: "env \<Rightarrow> flags \<Rightarrow> task list" where
  "tasks env f =
     (let dstPomPath = filepath_Join (outputDir f) ''pom.xml'';
          depsPath = filepath_Join (outputDir f) ''deps-tree.txt'';
          effectivePomPath = filepath_Join (outputDir f) ''effective-pom.xml'';
          sbomPath = filepath_Join (outputDir f) ''sbom.xml''
      in
      [\<lparr>name = ''Analyzing Dependencies'',
        action = runMavenCommand env dstPomPath depsPath,
        progress = 20\<rparr>,
       \<lparr>name = ''Generating Effective POM'',
        action = getEffectivePom env dstPomPath effectivePomPath,
        progress = 20\<rparr>,
       \<lparr>name = ''Generating CycloneDX SBOM'',
        action = generateCycloneDX env dstPomPath sbomPath,
        progress = 30\<rparr>,
       \<lparr>name = ''Scanning for Vulnerabilities'',
        action = runOSVScanner env sbomPath (exitOnVuln f),
        progress = 30\<rparr>])"

text \<open>The loop over the tasks, with \<^verbatim>\<open>completedProgress\<close> as it stands. It ends
  with the exit status of \<^verbatim>\<open>logger.Fatalf\<close> at the first task that returns an
  error, or with \<open>None\<close> after the last task.\<close>

fun run_tasks :: "task list \<Rightarrow> int \<Rightarrow> world \<Rightarrow> int option \<times> int \<times> world" where
  "run_tasks [] completedProgress w = (None, completedProgress, w)"
| "run_tasks (t # ts) completedProgress w =
     (case action t (emit (Log Info (TaskName (name t))) w) of
        (Some err, w1) \<Rightarrow>
          (case logger_Fatalf (TaskError (name t) err) (emit Println w1) of
             (code, w2) \<Rightarrow> (Some code, completedProgress, w2))
      | (None, w1) \<Rightarrow>
          run_tasks ts (completedProgress + progress t)
            (emit Sleep (emit (BarSet (completedProgress + progress t)) w1)))"

definition main :: "env \<Rightarrow> flags \<Rightarrow> world \<Rightarrow> int \<times> world" where
  "main env f w =
     (if showHelp f then (0, emit Usage w)
      else if check f then
        (case checkDependencies env w of
           (Some err, w1) \<Rightarrow> logger_Fatalf (DependencyCheckFailed err) w1
         | (None, w1) \<Rightarrow> (0, emit (Log Info AllDependenciesInstalled) w1))
      else if os_IsNotExist (os_Stat (pomFile f) w) then
        logger_Fatalf (PomNotFound (pomFile f)) w
      else
        (case stage_artifacts env (pomFile f) (outputDir f) w of
           (Some m, w1) \<Rightarrow> logger_Fatalf m w1
         | (None, w1) \<Rightarrow>
             (case run_tasks (tasks env f) 0
                     (emit (BarSet 10) (emit (NewBar 100) (emit (Log Info CopyingPom) w1))) of
                (Some code, completedProgress, w2) \<Rightarrow> (code, w2)
              | (None, completedProgress, w2) \<Rightarrow>
                  (0, emit (Log Info ProcessCompleted)
                        (emit PrintCompleted (emit BarClear w2))))))"

section \<open>Reading the log\<close>

text \<open>The commands the program started, each with the way it ended.\<close>

definition runs :: "event list \<Rightarrow> (command \<times> proc_outcome) list" where
  "runs tr = concat (map (\<lambda>e. case e of Exec c oc \<Rightarrow> [(c, oc)] | _ \<Rightarrow> []) tr)"

definition execs :: "event list \<Rightarrow> command list" where
  "execs tr = map fst (runs tr)"

definition stages_started :: "event list \<Rightarrow> string list" where
  "stages_started tr =
     concat (map (\<lambda>e. case e of Log Info (TaskName n) \<Rightarrow> [n] | _ \<Rightarrow> []) tr)"

definition bar_values :: "event list \<Rightarrow> int list" where
  "bar_values tr = concat (map (\<lambda>e. case e of BarSet v \<Rightarrow> [v] | _ \<Rightarrow> []) tr)"

definition warnings :: "event list \<Rightarrow> message list" where
  "warnings tr = concat (map (\<lambda>e. case e of Log Warn m \<Rightarrow> [m] | _ \<Rightarrow> []) tr)"

definition fatals :: "event list \<Rightarrow> message list" where
  "fatals tr = concat (map (\<lambda>e. case e of Log Fatal m \<Rightarrow> [m] | _ \<Rightarrow> []) tr)"

definition initial :: "node \<Rightarrow> world" where
  "initial r = \<lparr>fs = r, trace = []\<rparr>"

text \<open>The four stages of a scan: the names \<^verbatim>\<open>main\<close> logs and the commands it starts.\<close>

definition stage_names :: "string list" where
  "stage_names =
     [''Analyzing Dependencies'', ''Generating Effective POM'',
      ''Generating CycloneDX SBOM'', ''Scanning for Vulnerabilities'']"

definition pipeline_cmds :: "path \<Rightarrow> command list" where
  "pipeline_cmds out =
     [dependency_tree_cmd (out @ [''pom.xml'']) (out @ [''deps-tree.txt'']),
      effective_pom_cmd (out @ [''pom.xml'']) (out @ [''effective-pom.xml'']),
      cyclonedx_cmd (out @ [''pom.xml'']) out,
      osv_scanner_cmd (out @ [''sbom.xml'']) (out @ [''sbom-vulnerabilities.json''])]"

section \<open>A concrete installation\<close>

text \<open>Mock tools for the evaluated examples. Each Maven goal writes the file it is
  asked for under the output directory \<^verbatim>\<open>out\<close>, except the goal named \<open>broken\<close>,
  which fails; the scanner ends in the given way.\<close>

definition write_file :: "node \<Rightarrow> path \<Rightarrow> string \<Rightarrow> proc_outcome \<times> string \<times> node" where
  "write_file r p c =
     (case put r p (File c) of
        Inl e \<Rightarrow> (Exited 1, ''cannot write'', r)
      | Inr r' \<Rightarrow> (Exited 0, '''', r'))"

definition mock_tool :: "string \<Rightarrow> proc_outcome \<Rightarrow> command \<Rightarrow> node \<Rightarrow> proc_outcome \<times> string \<times> node" where
  "mock_tool broken scan_outcome c r =
     (if cmd_name c = ''osv-scanner'' then (scan_outcome, '''', r)
      else if hd (cmd_args c) = broken then (Exited 1, ''BUILD FAILURE'', r)
      else if hd (cmd_args c) = ''dependency:tree'' then
        write_file r [''out'', ''deps-tree.txt''] ''tree''
      else if hd (cmd_args c) = ''help:effective-pom'' then
        write_file r [''out'', ''effective-pom.xml''] ''<project/>''
      else write_file r [''out'', ''target'', ''bom.xml''] ''<bom/>'')"

definition no_fault :: "os_call \<Rightarrow> errno option" where
  "no_fault c = None"

definition deny :: "os_call \<Rightarrow> os_call \<Rightarrow> errno option" where
  "deny c c' = (if c' = c then Some EACCES else None)"

definition mock_env :: "string \<Rightarrow> proc_outcome \<Rightarrow> (os_call \<Rightarrow> errno option) \<Rightarrow> env" where
  "mock_env broken scan_outcome flt =
     \<lparr>tool = mock_tool broken scan_outcome, fault = flt,
      lookPath = (\<lambda>p. True), goos = ''linux''\<rparr>"

text \<open>An installation whose tools all exit with status 0 and write nothing.\<close>

definition idle_env :: env where
  "idle_env =
     \<lparr>tool = (\<lambda>c r. (Exited 0, '''', r)), fault = no_fault,
      lookPath = (\<lambda>p. True), goos = ''linux''\<rparr>"

text \<open>A project with results of an earlier scan in \<^verbatim>\<open>out\<close>; the same project with
  an SBOM in place; and with a directory where the report of the scan belongs.\<close>

definition project :: node where
  "project = Dir [(''pom.xml'', File ''<project/>''), (''out'', Dir [(''old.txt'', File ''x'')])]"

definition project_sbom :: node where
  "project_sbom =
     Dir [(''pom.xml'', File ''<project/>''), (''out'', Dir [(''sbom.xml'', File ''<bom/>'')])]"

definition project_blocked :: node where
  "project_blocked =
     Dir [(''pom.xml'', File ''<project/>''),
          (''out'', Dir [(''sbom.xml'', File ''<bom/>''),
                         (''sbom-vulnerabilities.json'', Dir [])])]"

definition scan_flags :: "bool \<Rightarrow> flags" where
  "scan_flags e =
     \<lparr>pomFile = [''pom.xml''], outputDir = [''out''], exitOnVuln = e,
      showHelp = False, check = False\<rparr>"

text \<open>An installation whose scanner removes the file its output goes to before it
  exits with status 0.\<close>

definition removing_tool :: "command \<Rightarrow> node \<Rightarrow> proc_outcome \<times> string \<times> node" where
  "removing_tool c r =
     (case cmd_stdout c of
        ToFile p \<Rightarrow>
          (case removeAll_node r p of
             Inl e \<Rightarrow> (Exited 0, '''', r)
           | Inr r' \<Rightarrow> (Exited 0, '''', r'))
      | _ \<Rightarrow> (Exited 0, '''', r))"

definition removing_env :: env where
  "removing_env =
     \<lparr>tool = removing_tool, fault = no_fault, lookPath = (\<lambda>p. True), goos = ''linux''\<rparr>"

section \<open>Facts about the file tree\<close>

lemma lookup_errno: "lookup r p = Inl e \<Longrightarrow> e = ENOENT \<or> e = ENOTDIR"
  by (induction r p rule: lookup.induct) (auto split: option.splits)

lemma put_ENOTDIR:
  "lookup r (d @ [c]) = Inl ENOTDIR \<Longrightarrow> put r (d @ [c']) n = Inl ENOTDIR"
proof (induction d arbitrary: r)
  case Nil
  then show ?case by (cases r) (auto split: option.splits)
next
  case (Cons x xs)
  show ?case
  proof (cases r)
    case (File s)
    then show ?thesis by simp
  next
    case (Dir es)
    with Cons.prems obtain m where m: "map_of es x = Some m" "lookup m (xs @ [c]) = Inl ENOTDIR"
      by (auto split: option.splits)
    from Cons.IH [OF m(2)] have "put m (xs @ [c']) n = Inl ENOTDIR" .
    moreover obtain y ys where "xs @ [c'] = y # ys" by (cases "xs @ [c']") auto
    ultimately show ?thesis using Dir m by simp
  qed
qed

lemma create_ENOTDIR:
  "lookup r (d @ [c]) = Inl ENOTDIR \<Longrightarrow> \<exists>e. create r (d @ [c']) = Inl e"
  by (auto simp: create_def put_ENOTDIR split: sum.splits node.splits)

lemma lookup_put_same: "put r p n = Inr r' \<Longrightarrow> lookup r' p = Inr n"
  by (induction r p n arbitrary: r' rule: put.induct)
    (auto simp: update_conv' split: option.splits sum.splits)

lemma lookup_create: "create r p = Inr r' \<Longrightarrow> lookup r' p = Inr (File '''')"
  by (auto simp: create_def split: sum.splits node.splits dest: lookup_put_same)

lemma mkdirAll_existing: "lookup r d = Inr (Dir es) \<Longrightarrow> mkdirAll r d = Inr r"
proof (induction d arbitrary: r)
  case Nil
  then show ?case by simp
next
  case (Cons c cs)
  from Cons.prems obtain fs m where r: "r = Dir fs" "map_of fs c = Some m"
    "lookup m cs = Inr (Dir es)"
    by (cases r) (auto split: option.splits)
  from Cons.IH [OF r(3)] r(1,2) show ?case by (simp add: update_triv)
qed

lemma removeAll_child:
  "lookup r d = Inr (Dir es) \<Longrightarrow> removeAll_node r (d @ [n]) = Inr r' \<Longrightarrow>
     lookup r' d = Inr (Dir (AList.delete n es))"
proof (induction d arbitrary: r r')
  case Nil
  then show ?case by auto
next
  case (Cons x xs)
  from Cons.prems(1) obtain fs m where r: "r = Dir fs" "map_of fs x = Some m"
    "lookup m xs = Inr (Dir es)"
    by (cases r) (auto split: option.splits)
  obtain y ys where ys: "xs @ [n] = y # ys" by (cases "xs @ [n]") auto
  with Cons.prems(2) r obtain m' where m': "removeAll_node m (xs @ [n]) = Inr m'"
    "r' = Dir (AList.update x m' fs)"
    by (auto split: sum.splits)
  from Cons.IH [OF r(3) m'(1)] m'(2) show ?case by (simp add: update_conv')
qed

lemma put_child:
  "lookup r d = Inr (Dir es) \<Longrightarrow> put r (d @ [n]) x = Inr r' \<Longrightarrow>
     lookup r' d = Inr (Dir (AList.update n x es))"
proof (induction d arbitrary: r r')
  case Nil
  then show ?case by auto
next
  case (Cons c cs)
  from Cons.prems(1) obtain fs m where r: "r = Dir fs" "map_of fs c = Some m"
    "lookup m cs = Inr (Dir es)"
    by (cases r) (auto split: option.splits)
  obtain y ys where ys: "cs @ [n] = y # ys" by (cases "cs @ [n]") auto
  with Cons.prems(2) r obtain m' where m': "put m (cs @ [n]) x = Inr m'"
    "r' = Dir (AList.update c m' fs)"
    by (auto split: sum.splits)
  from Cons.IH [OF r(3) m'(1)] m'(2) show ?case by (simp add: update_conv')
qed

lemma mkdirAll_ENOTDIR:
  "mkdirAll r d = Inr r' \<Longrightarrow> lookup r p = Inl ENOTDIR \<Longrightarrow> lookup r' p = Inl ENOTDIR"
proof (induction r d arbitrary: r' p rule: mkdirAll.induct)
  case (1 c p)
  then show ?case by simp
next
  case (2 es)
  then show ?case by simp
next
  case (3 es c cs)
  let ?m0 = "case map_of es c of None \<Rightarrow> Dir [] | Some m \<Rightarrow> m"
  from "3.prems"(1) obtain m' where m': "mkdirAll ?m0 cs = Inr m'"
    "r' = Dir (AList.update c m' es)"
    by (auto split: sum.splits)
  show ?case
  proof (cases p)
    case Nil
    with "3.prems"(2) show ?thesis by simp
  next
    case (Cons x xs)
    show ?thesis
    proof (cases "x = c")
      case False
      with Cons "3.prems"(2) m'(2) show ?thesis by (simp add: update_conv')
    next
      case True
      with Cons "3.prems"(2) obtain m where m: "map_of es c = Some m"
        "lookup m xs = Inl ENOTDIR"
        by (auto split: option.splits)
      with "3.IH" [of m' xs] m'(1) have "lookup m' xs = Inl ENOTDIR" by simp
      with Cons True m'(2) show ?thesis by (simp add: update_conv')
    qed
  qed
qed

lemma removeAll_unresolved:
  "removeAll_node r p = Inr r' \<Longrightarrow> lookup r q = Inl e \<Longrightarrow> \<exists>e'. lookup r' q = Inl e'"
proof (induction r p arbitrary: r' q e rule: removeAll_node.induct)
  case (1 n)
  then show ?case by simp
next
  case (2 c x xs)
  then show ?case by simp
next
  case (3 es c)
  then show ?case
    by (cases q) (auto simp: delete_conv' split: option.splits if_splits)
next
  case (4 es c d ds)
  show ?case
  proof (cases "map_of es c")
    case None
    with "4.prems" show ?thesis by auto
  next
    case (Some m)
    with "4.prems"(1) obtain m' where m': "removeAll_node m (d # ds) = Inr m'"
      "r' = Dir (AList.update c m' es)"
      by (auto split: sum.splits)
    show ?thesis
    proof (cases q)
      case Nil
      with "4.prems"(2) show ?thesis by simp
    next
      case (Cons x xs)
      show ?thesis
      proof (cases "x = c")
        case False
        with Cons "4.prems"(2) m'(2) show ?thesis
          by (auto simp: update_conv' split: option.splits)
      next
        case True
        with Cons "4.prems"(2) Some have "lookup m xs = Inl e" by simp
        from "4.IH" [OF Some m'(1) this] Cons True m'(2) show ?thesis
          by (simp add: update_conv')
      qed
    qed
  qed
qed

section \<open>What each function writes into the log\<close>

lemma trace_emit [simp]: "trace (emit e w) = trace w @ [e]"
  by (simp add: emit_def)

lemma fs_emit [simp]: "fs (emit e w) = fs w"
  by (simp add: emit_def)

lemma runs_append [simp]: "runs (xs @ ys) = runs xs @ runs ys"
  by (simp add: runs_def)

lemma execs_append [simp]: "execs (xs @ ys) = execs xs @ execs ys"
  by (simp add: execs_def)

lemma stages_started_append [simp]:
  "stages_started (xs @ ys) = stages_started xs @ stages_started ys"
  by (simp add: stages_started_def)

lemma bar_values_append [simp]: "bar_values (xs @ ys) = bar_values xs @ bar_values ys"
  by (simp add: bar_values_def)

lemma warnings_append [simp]: "warnings (xs @ ys) = warnings xs @ warnings ys"
  by (simp add: warnings_def)

lemma fatals_append [simp]: "fatals (xs @ ys) = fatals xs @ fatals ys"
  by (simp add: fatals_def)

lemma os_call_world:
  "os_call env c f w = (r, w') \<Longrightarrow> trace w' = trace w \<and> (r \<noteq> None \<longrightarrow> w' = w)"
  by (auto simp: os_call_def split: option.splits sum.splits)

lemma filepath_Abs_Inr: "filepath_Abs env p = Inr a \<Longrightarrow> a = p"
  by (auto simp: filepath_Abs_def split: option.splits)

lemma start_world:
  "start env c w = (oc, out, w') \<Longrightarrow> trace w' = trace w @ [Exec c oc]"
  by (auto simp: start_def split: prod.splits proc_outcome.splits)

lemma filepath_Ext_sbom: "filepath_Ext ''sbom.xml'' = ''.xml''"
  by code_simp

lemma TrimSuffix_sbom: "strings_TrimSuffix ''sbom.xml'' ''.xml'' = ''sbom''"
  by code_simp

lemma report_path_sbom:
  "report_path (out @ [''sbom.xml'']) = out @ [''sbom-vulnerabilities.json'']"
  by (simp add: report_path_def filepath_Ext_sbom TrimSuffix_sbom)

lemma os_MkdirAll_world:
  "os_MkdirAll env p w = (r, w') \<Longrightarrow> trace w' = trace w \<and> (r \<noteq> None \<longrightarrow> w' = w)"
  unfolding os_MkdirAll_def by (rule os_call_world)

lemma os_RemoveAll_world:
  "os_RemoveAll env p w = (r, w') \<Longrightarrow> trace w' = trace w \<and> (r \<noteq> None \<longrightarrow> w' = w)"
  unfolding os_RemoveAll_def by (rule os_call_world)

lemma os_Rename_world:
  "os_Rename env p q w = (r, w') \<Longrightarrow> trace w' = trace w \<and> (r \<noteq> None \<longrightarrow> w' = w)"
  unfolding os_Rename_def by (rule os_call_world)

lemma os_Create_world:
  "os_Create env p w = (r, w') \<Longrightarrow> trace w' = trace w \<and> (r \<noteq> None \<longrightarrow> w' = w)"
  unfolding os_Create_def by (rule os_call_world)

lemma os_Open_world:
  "os_Open env p w = (r, w') \<Longrightarrow> trace w' = trace w \<and> (r \<noteq> None \<longrightarrow> w' = w)"
  unfolding os_Open_def by (rule os_call_world)

lemma io_Copy_world:
  "io_Copy env p q w = (r, w') \<Longrightarrow> trace w' = trace w \<and> (r \<noteq> None \<longrightarrow> w' = w)"
  unfolding io_Copy_def by (rule os_call_world)

lemma cmd_CombinedOutput_world:
  "cmd_CombinedOutput env c w = (err, out, w') \<Longrightarrow>
     \<exists>oc. trace w' = trace w @ [Exec c oc] \<and> err = wait_err oc"
  by (auto simp: cmd_CombinedOutput_def split: prod.splits dest: start_world)

lemma cmd_Run_world:
  "cmd_Run env c w = (err, w') \<Longrightarrow>
     \<exists>oc. trace w' = trace w @ [Exec c oc] \<and> err = wait_err oc"
  by (auto simp: cmd_Run_def split: prod.splits dest: start_world)

lemma runMavenCommand_log:
  assumes "runMavenCommand env p out w = (r, w')"
  shows "stages_started (trace w') = stages_started (trace w)"
    and "bar_values (trace w') = bar_values (trace w)"
    and "(r \<noteq> None \<and> runs (trace w') = runs (trace w)) \<or>
         (\<exists>oc. runs (trace w') = runs (trace w) @ [(dependency_tree_cmd p out, oc)] \<and>
               (r = None \<longleftrightarrow> oc = Exited 0))"
  using assms
  by (auto simp: runMavenCommand_def runs_def stages_started_def bar_values_def wait_err_def
      split: sum.splits prod.splits option.splits proc_outcome.splits if_splits
      dest!: cmd_CombinedOutput_world filepath_Abs_Inr)

lemma getEffectivePom_log:
  assumes "getEffectivePom env p out w = (r, w')"
  shows "stages_started (trace w') = stages_started (trace w)"
    and "bar_values (trace w') = bar_values (trace w)"
    and "(r \<noteq> None \<and> runs (trace w') = runs (trace w)) \<or>
         (\<exists>oc. runs (trace w') = runs (trace w) @ [(effective_pom_cmd p out, oc)] \<and>
               (r = None \<longleftrightarrow> oc = Exited 0))"
  using assms
  by (auto simp: getEffectivePom_def runs_def stages_started_def bar_values_def wait_err_def
      split: sum.splits prod.splits option.splits proc_outcome.splits if_splits
      dest!: cmd_CombinedOutput_world filepath_Abs_Inr)

lemma generateCycloneDX_log:
  assumes "generateCycloneDX env p out w = (r, w')"
  shows "stages_started (trace w') = stages_started (trace w)"
    and "bar_values (trace w') = bar_values (trace w)"
    and "(r \<noteq> None \<and> runs (trace w') = runs (trace w)) \<or>
         (\<exists>oc. runs (trace w') = runs (trace w) @ [(cyclonedx_cmd p (filepath_Dir out), oc)] \<and>
               (r = None \<longrightarrow> oc = Exited 0))"
  using assms
  by (auto simp: generateCycloneDX_def runs_def stages_started_def bar_values_def wait_err_def
      Let_def
      split: sum.splits prod.splits option.splits proc_outcome.splits if_splits
      dest!: cmd_CombinedOutput_world filepath_Abs_Inr os_MkdirAll_world os_Rename_world
        os_RemoveAll_world)

lemma runOSVScanner_log:
  assumes "runOSVScanner env p e w = (r, w')"
  shows "stages_started (trace w') = stages_started (trace w)"
    and "bar_values (trace w') = bar_values (trace w)"
    and "(r \<noteq> None \<and> runs (trace w') = runs (trace w)) \<or>
         (\<exists>oc. runs (trace w') = runs (trace w) @ [(osv_scanner_cmd p (report_path p), oc)] \<and>
               (r = None \<longleftrightarrow> oc = Exited 0 \<or> (oc = Exited 1 \<and> \<not> e)))"
  using assms
  by (auto simp: runOSVScanner_def runs_def stages_started_def bar_values_def wait_err_def
      Let_def isExitStatus1_def
      split: sum.splits prod.splits option.splits proc_outcome.splits if_splits exec_err.splits
      dest!: cmd_Run_world filepath_Abs_Inr os_Create_world)

lemma remove_entries_world:
  "remove_entries env dir ns w = (r, w') \<Longrightarrow> trace w' = trace w"
proof (induction ns arbitrary: w)
  case Nil
  then show ?case by simp
next
  case (Cons n ns)
  obtain e w1 where s: "os_RemoveAll env (filepath_Join dir n) w = (e, w1)" by fastforce
  with os_RemoveAll_world [OF s] Cons show ?case
    by (cases e) auto
qed

lemma cleanDirectory_world:
  "cleanDirectory env dir w = (r, w') \<Longrightarrow> trace w' = trace w"
  by (auto simp: cleanDirectory_def split: sum.splits dest: remove_entries_world)

lemma copyFile_world:
  "copyFile env src dst w = (r, w') \<Longrightarrow> trace w' = trace w"
  by (auto simp: copyFile_def split: prod.splits option.splits
      dest!: os_MkdirAll_world os_Open_world os_Create_world io_Copy_world)

lemma stage_artifacts_world:
  "stage_artifacts env pom out w = (r, w') \<Longrightarrow> trace w' = trace w"
  by (auto simp: stage_artifacts_def split: prod.splits option.splits
      dest!: os_MkdirAll_world cleanDirectory_world copyFile_world)

section \<open>The loop over the tasks\<close>

lemma tasks_unfold:
  "tasks env f =
     [\<lparr>name = ''Analyzing Dependencies'',
       action = runMavenCommand env (outputDir f @ [''pom.xml'']) (outputDir f @ [''deps-tree.txt'']),
       progress = 20\<rparr>,
      \<lparr>name = ''Generating Effective POM'',
       action = getEffectivePom env (outputDir f @ [''pom.xml''])
                  (outputDir f @ [''effective-pom.xml'']),
       progress = 20\<rparr>,
      \<lparr>name = ''Generating CycloneDX SBOM'',
       action = generateCycloneDX env (outputDir f @ [''pom.xml'']) (outputDir f @ [''sbom.xml'']),
       progress = 30\<rparr>,
      \<lparr>name = ''Scanning for Vulnerabilities'',
       action = runOSVScanner env (outputDir f @ [''sbom.xml'']) (exitOnVuln f),
       progress = 30\<rparr>]"
  by (simp add: tasks_def Let_def filepath_Join_def)

text \<open>A run of the loop over the four tasks ends in one of five ways: at the first,
  second, third or fourth task, or after all of them.\<close>

lemma pipeline_unroll:
  assumes run: "run_tasks (tasks env f) 0 w0 = (res, cp, w')"
  obtains
    (fail1) e1 w1 where
      "runMavenCommand env (outputDir f @ [''pom.xml'']) (outputDir f @ [''deps-tree.txt''])
         (emit (Log Info (TaskName ''Analyzing Dependencies'')) w0) = (Some e1, w1)"
      "res = Some 1" "cp = 0"
      "w' = emit (Log Fatal (TaskError ''Analyzing Dependencies'' e1)) (emit Println w1)"
  | (fail2) w1 e2 w2 where
      "runMavenCommand env (outputDir f @ [''pom.xml'']) (outputDir f @ [''deps-tree.txt''])
         (emit (Log Info (TaskName ''Analyzing Dependencies'')) w0) = (None, w1)"
      "getEffectivePom env (outputDir f @ [''pom.xml'']) (outputDir f @ [''effective-pom.xml''])
         (emit (Log Info (TaskName ''Generating Effective POM''))
            (emit Sleep (emit (BarSet 20) w1))) = (Some e2, w2)"
      "res = Some 1" "cp = 20"
      "w' = emit (Log Fatal (TaskError ''Generating Effective POM'' e2)) (emit Println w2)"
  | (fail3) w1 w2 e3 w3 where
      "runMavenCommand env (outputDir f @ [''pom.xml'']) (outputDir f @ [''deps-tree.txt''])
         (emit (Log Info (TaskName ''Analyzing Dependencies'')) w0) = (None, w1)"
      "getEffectivePom env (outputDir f @ [''pom.xml'']) (outputDir f @ [''effective-pom.xml''])
         (emit (Log Info (TaskName ''Generating Effective POM''))
            (emit Sleep (emit (BarSet 20) w1))) = (None, w2)"
      "generateCycloneDX env (outputDir f @ [''pom.xml'']) (outputDir f @ [''sbom.xml''])
         (emit (Log Info (TaskName ''Generating CycloneDX SBOM''))
            (emit Sleep (emit (BarSet 40) w2))) = (Some e3, w3)"
      "res = Some 1" "cp = 40"
      "w' = emit (Log Fatal (TaskError ''Generating CycloneDX SBOM'' e3)) (emit Println w3)"
  | (fail4) w1 w2 w3 e4 w4 where
      "runMavenCommand env (outputDir f @ [''pom.xml'']) (outputDir f @ [''deps-tree.txt''])
         (emit (Log Info (TaskName ''Analyzing Dependencies'')) w0) = (None, w1)"
      "getEffectivePom env (outputDir f @ [''pom.xml'']) (outputDir f @ [''effective-pom.xml''])
         (emit (Log Info (TaskName ''Generating Effective POM''))
            (emit Sleep (emit (BarSet 20) w1))) = (None, w2)"
      "generateCycloneDX env (outputDir f @ [''pom.xml'']) (outputDir f @ [''sbom.xml''])
         (emit (Log Info (TaskName ''Generating CycloneDX SBOM''))
            (emit Sleep (emit (BarSet 40) w2))) = (None, w3)"
      "runOSVScanner env (outputDir f @ [''sbom.xml'']) (exitOnVuln f)
         (emit (Log Info (TaskName ''Scanning for Vulnerabilities''))
            (emit Sleep (emit (BarSet 70) w3))) = (Some e4, w4)"
      "res = Some 1" "cp = 70"
      "w' = emit (Log Fatal (TaskError ''Scanning for Vulnerabilities'' e4)) (emit Println w4)"
  | (all_done) w1 w2 w3 w4 where
      "runMavenCommand env (outputDir f @ [''pom.xml'']) (outputDir f @ [''deps-tree.txt''])
         (emit (Log Info (TaskName ''Analyzing Dependencies'')) w0) = (None, w1)"
      "getEffectivePom env (outputDir f @ [''pom.xml'']) (outputDir f @ [''effective-pom.xml''])
         (emit (Log Info (TaskName ''Generating Effective POM''))
            (emit Sleep (emit (BarSet 20) w1))) = (None, w2)"
      "generateCycloneDX env (outputDir f @ [''pom.xml'']) (outputDir f @ [''sbom.xml''])
         (emit (Log Info (TaskName ''Generating CycloneDX SBOM''))
            (emit Sleep (emit (BarSet 40) w2))) = (None, w3)"
      "runOSVScanner env (outputDir f @ [''sbom.xml'']) (exitOnVuln f)
         (emit (Log Info (TaskName ''Scanning for Vulnerabilities''))
            (emit Sleep (emit (BarSet 70) w3))) = (None, w4)"
      "res = None" "cp = 100"
      "w' = emit Sleep (emit (BarSet 100) w4)"
proof -
  let ?o = "outputDir f"
  obtain r1 w1 where s1: "runMavenCommand env (?o @ [''pom.xml'']) (?o @ [''deps-tree.txt''])
      (emit (Log Info (TaskName ''Analyzing Dependencies'')) w0) = (r1, w1)" by fastforce
  obtain r2 w2 where s2: "getEffectivePom env (?o @ [''pom.xml''])
      (?o @ [''effective-pom.xml''])
      (emit (Log Info (TaskName ''Generating Effective POM''))
         (emit Sleep (emit (BarSet 20) w1))) = (r2, w2)" by fastforce
  obtain r3 w3 where s3: "generateCycloneDX env (?o @ [''pom.xml'']) (?o @ [''sbom.xml''])
      (emit (Log Info (TaskName ''Generating CycloneDX SBOM''))
         (emit Sleep (emit (BarSet 40) w2))) = (r3, w3)" by fastforce
  obtain r4 w4 where s4: "runOSVScanner env (?o @ [''sbom.xml'']) (exitOnVuln f)
      (emit (Log Info (TaskName ''Scanning for Vulnerabilities''))
         (emit Sleep (emit (BarSet 70) w3))) = (r4, w4)" by fastforce
  show thesis
  proof (cases r1)
    case (Some e1)
    with run s1 show thesis
      by (intro fail1 [of e1 w1]) (simp_all add: tasks_unfold logger_Fatalf_def)
  next
    case n1: None
    show thesis
    proof (cases r2)
      case (Some e2)
      with run s1 s2 n1 show thesis
        by (intro fail2 [of w1 e2 w2]) (simp_all add: tasks_unfold logger_Fatalf_def)
    next
      case n2: None
      show thesis
      proof (cases r3)
        case (Some e3)
        with run s1 s2 s3 n1 n2 show thesis
          by (intro fail3 [of w1 w2 e3 w3]) (simp_all add: tasks_unfold logger_Fatalf_def)
      next
        case n3: None
        show thesis
        proof (cases r4)
          case (Some e4)
          with run s1 s2 s3 s4 n1 n2 n3 show thesis
            by (intro fail4 [of w1 w2 w3 e4 w4]) (simp_all add: tasks_unfold logger_Fatalf_def)
        next
          case n4: None
          with run s1 s2 s3 s4 n1 n2 n3 show thesis
            by (intro all_done [of w1 w2 w3 w4]) (simp_all add: tasks_unfold logger_Fatalf_def)
        qed
      qed
    qed
  qed
qed

section \<open>Paths that do not resolve\<close>

lemma filepath_Abs_ok: "fault env (Abs p) = None \<Longrightarrow> filepath_Abs env p = Inr p"
  by (simp add: filepath_Abs_def)

lemma os_Stat_lookup: "os_IsNotExist (os_Stat p w) \<longleftrightarrow> lookup (fs w) p = Inl ENOENT"
  by (auto simp: os_IsNotExist_def os_Stat_def split: sum.splits)

lemma report_path_sibling:
  "p \<noteq> [] \<Longrightarrow> \<exists>c. report_path p = butlast p @ [c]"
  by (cases p rule: rev_cases) (auto simp: report_path_def)

lemma os_Create_unresolved:
  assumes "lookup (fs w) p = Inl ENOTDIR"
  shows "\<exists>e. os_Create env (report_path p) w = (Some e, w)"
proof -
  from assms have "p \<noteq> []" by auto
  then obtain c where c: "report_path p = butlast p @ [c]"
    using report_path_sibling by blast
  from \<open>p \<noteq> []\<close> have "p = butlast p @ [last p]" by simp
  with assms have "lookup (fs w) (butlast p @ [last p]) = Inl ENOTDIR" by simp
  from create_ENOTDIR [OF this] c obtain e where "create (fs w) (report_path p) = Inl e"
    by auto
  then show ?thesis
    by (auto simp: os_Create_def os_call_def split: option.splits)
qed

lemma rename_missing: "lookup r src = Inl e \<Longrightarrow> rename r src dst = Inl e"
  by (simp add: rename_def)

lemma os_Rename_missing:
  "lookup (fs w) src = Inl e \<Longrightarrow> \<exists>e'. os_Rename env src dst w = (Some e', w)"
  by (auto simp: os_Rename_def os_call_def rename_missing split: option.splits)

lemma os_Create_file:
  "os_Create env p w = (None, w1) \<Longrightarrow> lookup (fs w1) p = Inr (File '''')"
  by (auto simp: os_Create_def os_call_def split: option.splits sum.splits dest: lookup_create)

section \<open>\<^verbatim>\<open>main\<close> and its loop\<close>

lemma main_pipeline:
  assumes "\<not> showHelp f" and "\<not> check f"
    and "\<not> os_IsNotExist (os_Stat (pomFile f) w)"
    and "stage_artifacts env (pomFile f) (outputDir f) w = (None, w0)"
  shows "main env f w =
     (case run_tasks (tasks env f) 0
             (emit (BarSet 10) (emit (NewBar 100) (emit (Log Info CopyingPom) w0))) of
        (Some code, completedProgress, w2) \<Rightarrow> (code, w2)
      | (None, completedProgress, w2) \<Rightarrow>
          (0, emit (Log Info ProcessCompleted) (emit PrintCompleted (emit BarClear w2))))"
  using assms by (simp add: main_def)

lemma run_tasks_append:
  "run_tasks (xs @ ys) cp w =
     (case run_tasks xs cp w of
        (Some code, cp1, w1) \<Rightarrow> (Some code, cp1, w1)
      | (None, cp1, w1) \<Rightarrow> run_tasks ys cp1 w1)"
  by (induction xs arbitrary: cp w) (auto split: prod.splits option.splits)

lemma tasks_quiet:
  assumes "t \<in> set (tasks env f)" and "action t w = (r, w')"
  shows "stages_started (trace w') = stages_started (trace w)"
  using assms
  by (auto simp: tasks_unfold
      dest: runMavenCommand_log(1) getEffectivePom_log(1) generateCycloneDX_log(1)
        runOSVScanner_log(1))

lemma run_tasks_stages:
  assumes "\<And>t w r w'. t \<in> set ts \<Longrightarrow> action t w = (r, w') \<Longrightarrow>
             stages_started (trace w') = stages_started (trace w)"
    and "run_tasks ts cp w = (None, cp1, w1)"
  shows "stages_started (trace w1) = stages_started (trace w) @ map name ts"
  using assms
proof (induction ts arbitrary: cp w)
  case Nil
  then show ?case by simp
next
  case (Cons t ts)
  obtain r w2 where a: "action t (emit (Log Info (TaskName (name t))) w) = (r, w2)"
    by fastforce
  with Cons.prems(2) have r: "r = None"
    by (cases r) (auto simp: logger_Fatalf_def)
  with a Cons.prems(2) have rt:
    "run_tasks ts (cp + progress t) (emit Sleep (emit (BarSet (cp + progress t)) w2)) =
       (None, cp1, w1)" by simp
  have "stages_started (trace w1) =
      stages_started (trace (emit Sleep (emit (BarSet (cp + progress t)) w2))) @ map name ts"
    using Cons.prems(1) by (intro Cons.IH [OF _ rt]) auto
  moreover from Cons.prems(1) [OF _ a]
  have "stages_started (trace w2) = stages_started (trace w) @ [name t]"
    by (simp add: stages_started_def)
  ultimately show ?case by (simp add: stages_started_def)
qed

lemma pipeline_log:
  assumes run: "run_tasks (tasks env f) 0 w0 = (res, cp, w')"
  shows "\<exists>k\<le>4. (res = None \<longleftrightarrow> k = 4) \<and> (res = None \<or> res = Some 1) \<and>
           cp = sum_list (take k [20, 20, 30, 30]) \<and>
           stages_started (trace w') = stages_started (trace w0) @ take (Suc k) stage_names \<and>
           bar_values (trace w') = bar_values (trace w0) @ take k [20, 40, 70, 100] \<and>
           (execs (trace w') = execs (trace w0) @ take k (pipeline_cmds (outputDir f)) \<or>
            execs (trace w') = execs (trace w0) @ take (Suc k) (pipeline_cmds (outputDir f)))"
  using run
proof (cases rule: pipeline_unroll)
  case (fail1 e1 w1)
  from runMavenCommand_log [OF fail1(1)] fail1(2-) show ?thesis
    by (intro exI [of _ 0])
      (auto simp: stage_names_def pipeline_cmds_def execs_def runs_def stages_started_def
        bar_values_def)
next
  case (fail2 w1 e2 w2)
  from runMavenCommand_log [OF fail2(1)] getEffectivePom_log [OF fail2(2)] fail2(3-)
  show ?thesis
    by (intro exI [of _ 1])
      (auto simp: stage_names_def pipeline_cmds_def execs_def runs_def stages_started_def
        bar_values_def)
next
  case (fail3 w1 w2 e3 w3)
  from runMavenCommand_log [OF fail3(1)] getEffectivePom_log [OF fail3(2)]
    generateCycloneDX_log [OF fail3(3)] fail3(4-)
  show ?thesis
    by (intro exI [of _ 2])
      (auto simp: stage_names_def pipeline_cmds_def execs_def runs_def stages_started_def
        bar_values_def filepath_Dir_def numeral_2_eq_2)
next
  case (fail4 w1 w2 w3 e4 w4)
  from runMavenCommand_log [OF fail4(1)] getEffectivePom_log [OF fail4(2)]
    generateCycloneDX_log [OF fail4(3)] runOSVScanner_log [OF fail4(4)] fail4(5-)
  show ?thesis
    by (intro exI [of _ 3])
      (auto simp: stage_names_def pipeline_cmds_def execs_def runs_def stages_started_def
        bar_values_def filepath_Dir_def report_path_sbom numeral_3_eq_3)
next
  case (all_done w1 w2 w3 w4)
  from runMavenCommand_log [OF all_done(1)] getEffectivePom_log [OF all_done(2)]
    generateCycloneDX_log [OF all_done(3)] runOSVScanner_log [OF all_done(4)] all_done(5-)
  show ?thesis
    by (intro exI [of _ 4])
      (auto simp: stage_names_def pipeline_cmds_def execs_def runs_def stages_started_def
        bar_values_def filepath_Dir_def report_path_sbom)
qed

lemma pipeline_cmds_distinct: "distinct (pipeline_cmds out)"
  by (simp add: pipeline_cmds_def dependency_tree_cmd_def effective_pom_cmd_def
      cyclonedx_cmd_def osv_scanner_cmd_def)

lemma tasks_names: "map name (tasks env f) = stage_names"
  by (simp add: tasks_unfold stage_names_def)

lemma check_maven_bar:
  "check_maven env w = (r, w') \<Longrightarrow> bar_values (trace w') = bar_values (trace w)"
  by (auto simp: check_maven_def Let_def bar_values_def
      split: if_splits sum.splits prod.splits option.splits dest!: cmd_Run_world)

lemma check_osv_bar:
  "check_osv env w = (r, w') \<Longrightarrow> bar_values (trace w') = bar_values (trace w)"
  by (auto simp: check_osv_def Let_def bar_values_def
      split: if_splits sum.splits prod.splits option.splits dest!: cmd_Run_world)

lemma checkDependencies_bar:
  "checkDependencies env w = (r, w') \<Longrightarrow> bar_values (trace w') = bar_values (trace w)"
  by (auto simp: checkDependencies_def split: prod.splits option.splits
      dest!: check_maven_bar check_osv_bar)

lemma tasks_weights: "sum_list (map progress (tasks env f)) = 100"
  by (simp add: tasks_unfold)

text \<open>A scan that runs all four stages to the end.\<close>

lemma pipeline_completed:
  assumes "run_tasks (tasks env f) 0 w0 = (None, cp, w')"
  shows "\<exists>w4 oc. w' = emit Sleep (emit (BarSet 100) w4) \<and> cp = 100 \<and>
           stages_started (trace w4) = stages_started (trace w0) @ stage_names \<and>
           bar_values (trace w4) = bar_values (trace w0) @ [20, 40, 70] \<and>
           runs (trace w4) =
             runs (trace w0) @
             zip (pipeline_cmds (outputDir f)) [Exited 0, Exited 0, Exited 0, oc] \<and>
           (oc = Exited 0 \<or> oc = Exited 1 \<and> \<not> exitOnVuln f)"
  using assms
proof (cases rule: pipeline_unroll)
  case (all_done w1 w2 w3 w4)
  from runMavenCommand_log [OF all_done(1)] getEffectivePom_log [OF all_done(2)]
    generateCycloneDX_log [OF all_done(3)] runOSVScanner_log [OF all_done(4)] all_done(5-)
  show ?thesis
    by (intro exI [of _ w4])
      (auto simp: stage_names_def pipeline_cmds_def runs_def stages_started_def
        bar_values_def filepath_Dir_def report_path_sbom)
qed simp_all

lemma main_bar_values:
  assumes "main env f (initial r) = (code, w')"
  shows "bar_values (trace w') = [] \<or>
         (\<exists>k\<le>4. bar_values (trace w') = 10 # take k [20, 40, 70, 100] \<and>
                 (k = 4 \<longrightarrow>
                    code = 0 \<and>
                    (\<exists>pre oc.
                       trace w' =
                         pre @ [BarSet 100, Sleep, BarClear, PrintCompleted,
                                Log Info ProcessCompleted] \<and>
                       stages_started pre = stage_names \<and>
                       runs pre =
                         zip (pipeline_cmds (outputDir f))
                           [Exited 0, Exited 0, Exited 0, oc] \<and>
                       (oc = Exited 0 \<or> oc = Exited 1 \<and> \<not> exitOnVuln f) \<and>
                       bar_values pre = [10, 20, 40, 70])))"
proof -
  consider (usage) "showHelp f"
    | (deps) "\<not> showHelp f" "check f"
    | (nopom) "\<not> showHelp f" "\<not> check f" "os_IsNotExist (os_Stat (pomFile f) (initial r))"
    | (nostage) m w1 where "\<not> showHelp f" "\<not> check f"
        "\<not> os_IsNotExist (os_Stat (pomFile f) (initial r))"
        "stage_artifacts env (pomFile f) (outputDir f) (initial r) = (Some m, w1)"
    | (scan) w0 where "\<not> showHelp f" "\<not> check f"
        "\<not> os_IsNotExist (os_Stat (pomFile f) (initial r))"
        "stage_artifacts env (pomFile f) (outputDir f) (initial r) = (None, w0)"
    by (cases "stage_artifacts env (pomFile f) (outputDir f) (initial r)";
        cases "fst (stage_artifacts env (pomFile f) (outputDir f) (initial r))") auto
  then show ?thesis
  proof cases
    case usage
    with assms show ?thesis by (auto simp: main_def bar_values_def initial_def)
  next
    case deps
    obtain e w1 where c: "checkDependencies env (initial r) = (e, w1)" by fastforce
    from checkDependencies_bar [OF c] have "bar_values (trace w1) = []"
      by (simp add: initial_def bar_values_def)
    with assms deps c show ?thesis
      by (cases e) (auto simp: main_def logger_Fatalf_def bar_values_def)
  next
    case nopom
    with assms show ?thesis
      by (auto simp: main_def logger_Fatalf_def bar_values_def initial_def)
  next
    case (nostage m w1)
    from stage_artifacts_world [OF nostage(4)] have "trace w1 = []" by (simp add: initial_def)
    with assms nostage show ?thesis
      by (auto simp: main_def logger_Fatalf_def bar_values_def)
  next
    case (scan w0)
    let ?W = "emit (BarSet 10) (emit (NewBar 100) (emit (Log Info CopyingPom) w0))"
    obtain res cp w2 where run: "run_tasks (tasks env f) 0 ?W = (res, cp, w2)"
      using prod_cases3 by blast
    from stage_artifacts_world [OF scan(4)] have "trace w0 = []" by (simp add: initial_def)
    then have W: "bar_values (trace ?W) = [10]" "stages_started (trace ?W) = []"
      "runs (trace ?W) = []"
      by (simp_all add: bar_values_def stages_started_def runs_def)
    from pipeline_log [OF run] W obtain k where k: "k \<le> 4" "res = None \<longleftrightarrow> k = 4"
      "res = None \<or> res = Some 1"
      "bar_values (trace w2) = 10 # take k [20, 40, 70, 100]"
      by auto
    show ?thesis
    proof (cases res)
      case (Some c)
      with main_pipeline [OF scan(1-4)] run assms have "w' = w2" by simp
      with k Some show ?thesis by auto
    next
      case None
      with main_pipeline [OF scan(1-4)] run assms have m: "code = 0"
        "w' = emit (Log Info ProcessCompleted) (emit PrintCompleted (emit BarClear w2))"
        by simp_all
      from pipeline_completed [OF run [unfolded None]] W obtain w4 oc where
        w4: "w2 = emit Sleep (emit (BarSet 100) w4)"
        "stages_started (trace w4) = stage_names"
        "bar_values (trace w4) = [10, 20, 40, 70]"
        "runs (trace w4) = zip (pipeline_cmds (outputDir f)) [Exited 0, Exited 0, Exited 0, oc]"
        "oc = Exited 0 \<or> oc = Exited 1 \<and> \<not> exitOnVuln f"
        by auto
      have "bar_values (trace w') = 10 # take 4 [20, 40, 70, 100]"
        using m w4 by (simp add: bar_values_def)
      moreover have "trace w' =
          trace w4 @ [BarSet 100, Sleep, BarClear, PrintCompleted, Log Info ProcessCompleted]"
        using m w4 by simp
      ultimately show ?thesis using m(1) w4(2-) by (intro disjI2 exI [of _ 4]) blast
    qed
  qed
qed

lemma runOSVScanner_cases:
  assumes "runOSVScanner env p e w = (r, w')"
  shows "(r \<noteq> None \<and> runs (trace w') = runs (trace w)) \<or>
     (\<exists>oc. runs (trace w') = runs (trace w) @ [(osv_scanner_cmd p (report_path p), oc)] \<and>
        trace w' =
          trace w @ Exec (osv_scanner_cmd p (report_path p)) oc #
            (if oc = Exited 0 then [Log Info (ReportWritten (report_path p))]
             else if oc = Exited 1 \<and> \<not> e then [Log Warn (VulnerabilitiesWarning (report_path p))]
             else []) \<and>
        (oc = Exited 0 \<longrightarrow> r = None) \<and>
        (oc = Exited 1 \<and> \<not> e \<longrightarrow> r = None) \<and>
        (oc = Exited 1 \<and> e \<longrightarrow> r = Some (VulnerabilitiesFound (report_path p))) \<and>
        (oc \<noteq> Exited 0 \<and> oc \<noteq> Exited 1 \<longrightarrow>
           (\<exists>err. wait_err oc = Some err \<and> r = Some (OSVScannerError err))))"
  using assms
  by (auto simp: runOSVScanner_def runs_def wait_err_def Let_def isExitStatus1_def
      split: sum.splits prod.splits option.splits proc_outcome.splits if_splits exec_err.splits
      dest!: cmd_Run_world filepath_Abs_Inr os_Create_world)

lemma run_tasks_progress:
  "run_tasks ts c w = (None, cp, w1) \<Longrightarrow> cp = c + sum_list (map progress ts)"
proof (induction ts arbitrary: c w)
  case Nil
  then show ?case by simp
next
  case (Cons t ts)
  obtain r w2 where a: "action t (emit (Log Info (TaskName (name t))) w) = (r, w2)"
    by fastforce
  with Cons.prems have "r = None" by (cases r) (auto simp: logger_Fatalf_def)
  with a Cons.prems Cons.IH [of "c + progress t" "emit Sleep (emit (BarSet (c + progress t)) w2)"]
  show ?case by simp
qed

section \<open>Staging\<close>

lemma os_call_fs: "os_call env c f w = (None, w') \<Longrightarrow> f (fs w) = Inr (fs w')"
  by (auto simp: os_call_def split: option.splits sum.splits)

lemma delete_key_set: "set (map fst (AList.delete k al)) = set (map fst al) - {k}"
  by (simp only: delete_keys set_removeAll)

lemma fold_delete_keys:
  "set (map fst (fold AList.delete ns es)) = set (map fst es) - set ns"
proof (induction ns arbitrary: es)
  case Nil
  then show ?case by simp
next
  case (Cons n ns)
  have "set (map fst (fold AList.delete (n # ns) es)) =
      set (map fst (AList.delete n es)) - set ns"
    using Cons.IH [of "AList.delete n es"] by simp
  also have "\<dots> = set (map fst es) - set (n # ns)"
    unfolding delete_key_set by auto
  finally show ?case .
qed

lemma remove_entries_lookup:
  "lookup (fs w) d = Inr (Dir es) \<Longrightarrow> remove_entries env d ns w = (None, w') \<Longrightarrow>
     lookup (fs w') d = Inr (Dir (fold AList.delete ns es))"
proof (induction ns arbitrary: w es)
  case Nil
  then show ?case by simp
next
  case (Cons n ns)
  obtain e w1 where s: "os_RemoveAll env (filepath_Join d n) w = (e, w1)" by fastforce
  with Cons.prems(2) have e: "e = None" by (cases e) auto
  from s e have "removeAll_node (fs w) (d @ [n]) = Inr (fs w1)"
    by (auto simp: os_RemoveAll_def filepath_Join_def dest: os_call_fs)
  from removeAll_child [OF Cons.prems(1) this]
  have "lookup (fs w1) d = Inr (Dir (AList.delete n es))" .
  from Cons.IH [OF this] s e Cons.prems(2) show ?case by simp
qed

lemma cleanDirectory_empty:
  assumes "cleanDirectory env d w = (None, w')"
  shows "lookup (fs w') d = Inr (Dir [])"
proof -
  from assms obtain ns where ns: "os_ReadDir env d w = Inr ns"
    "remove_entries env d ns w = (None, w')"
    by (auto simp: cleanDirectory_def split: sum.splits)
  from ns(1) obtain es where es: "lookup (fs w) d = Inr (Dir es)"
    "ns = sort (remdups (map fst es))"
    by (auto simp: os_ReadDir_def readDir_def split: option.splits sum.splits node.splits)
  from remove_entries_lookup [OF es(1) ns(2)]
  have l: "lookup (fs w') d = Inr (Dir (fold AList.delete ns es))" .
  have "set (map fst (fold AList.delete ns es)) = {}"
    unfolding fold_delete_keys using es(2) by simp
  then have "fold AList.delete ns es = []" by simp
  with l show ?thesis by simp
qed

lemma copyFile_listing:
  assumes "lookup (fs w) d = Inr (Dir es)"
    and "copyFile env src (d @ [n]) w = (None, w')"
  shows "\<exists>c. lookup (fs w') d = Inr (Dir (AList.update n (File c) es))"
proof -
  from assms(2) obtain w1 w2 w3 where
    s: "os_MkdirAll env d w = (None, w1)" "os_Open env src w1 = (None, w2)"
      "os_Create env (d @ [n]) w2 = (None, w3)" "io_Copy env (d @ [n]) src w3 = (None, w')"
    by (auto simp: copyFile_def filepath_Dir_def split: prod.splits option.splits)
  from s(1) have "mkdirAll (fs w) d = Inr (fs w1)"
    by (auto simp: os_MkdirAll_def dest: os_call_fs)
  with mkdirAll_existing [OF assms(1)] have "fs w1 = fs w" by simp
  moreover from s(2) have "fs w2 = fs w1"
    by (auto simp: os_Open_def dest!: os_call_fs split: sum.splits)
  ultimately have l2: "lookup (fs w2) d = Inr (Dir es)" using assms(1) by simp
  from s(3) have "create (fs w2) (d @ [n]) = Inr (fs w3)"
    by (auto simp: os_Create_def dest: os_call_fs)
  then have "put (fs w2) (d @ [n]) (File '''') = Inr (fs w3)"
    by (auto simp: create_def split: sum.splits node.splits)
  from put_child [OF l2 this]
  have l3: "lookup (fs w3) d = Inr (Dir (AList.update n (File '''') es))" .
  from s(4) obtain c where "put (fs w3) (d @ [n]) (File c) = Inr (fs w')"
    by (auto simp: io_Copy_def dest!: os_call_fs split: sum.splits node.splits)
  from put_child [OF l3 this] show ?thesis by auto
qed

lemma stage_artifacts_listing:
  assumes "stage_artifacts env pom out w = (None, w')"
  shows "readDir (fs w') out = Inr [''pom.xml'']"
proof -
  from assms obtain w1 w2 where
    s: "cleanDirectory env out w1 = (None, w2)"
      "copyFile env pom (out @ [''pom.xml'']) w2 = (None, w')"
    by (auto simp: stage_artifacts_def filepath_Join_def split: prod.splits option.splits)
  from copyFile_listing [OF cleanDirectory_empty [OF s(1)] s(2)]
  show ?thesis by (auto simp: readDir_def)
qed

lemma remove_entries_unresolved:
  "lookup (fs w) q = Inl e \<Longrightarrow> remove_entries env d ns w = (r, w') \<Longrightarrow>
     \<exists>e'. lookup (fs w') q = Inl e'"
proof (induction ns arbitrary: w e)
  case Nil
  then show ?case by simp
next
  case (Cons n ns)
  obtain x w1 where s: "os_RemoveAll env (filepath_Join d n) w = (x, w1)" by fastforce
  show ?case
  proof (cases x)
    case (Some y)
    with os_RemoveAll_world [OF s] s Cons.prems show ?thesis by auto
  next
    case None
    with s have "removeAll_node (fs w) (filepath_Join d n) = Inr (fs w1)"
      by (auto simp: os_RemoveAll_def dest: os_call_fs)
    from removeAll_unresolved [OF this Cons.prems(1)] obtain e' where
      "lookup (fs w1) q = Inl e'" by blast
    from Cons.IH [OF this] s None Cons.prems(2) show ?thesis by simp
  qed
qed

lemma stage_artifacts_unresolved:
  assumes "lookup (fs w) pom = Inl ENOTDIR"
  shows "\<exists>m w1. stage_artifacts env pom out w = (Some m, w1)"
proof (rule ccontr)
  assume "\<not> ?thesis"
  then obtain w' where ok: "stage_artifacts env pom out w = (None, w')"
    by (cases "stage_artifacts env pom out w"; cases "fst (stage_artifacts env pom out w)") auto
  then obtain wa wb where
    s: "os_MkdirAll env out w = (None, wa)" "cleanDirectory env out wa = (None, wb)"
      "copyFile env pom (out @ [''pom.xml'']) wb = (None, w')"
    by (auto simp: stage_artifacts_def filepath_Join_def split: prod.splits option.splits)
  from s(1) have "mkdirAll (fs w) out = Inr (fs wa)"
    by (auto simp: os_MkdirAll_def dest: os_call_fs)
  from mkdirAll_ENOTDIR [OF this assms] have a: "lookup (fs wa) pom = Inl ENOTDIR" .
  from s(2) obtain ns where "remove_entries env out ns wa = (None, wb)"
    by (auto simp: cleanDirectory_def split: sum.splits)
  from remove_entries_unresolved [OF a this] obtain e' where
    b: "lookup (fs wb) pom = Inl e'" by blast
  from s(3) obtain w1 w2 where
    c: "os_MkdirAll env out wb = (None, w1)" "os_Open env pom w1 = (None, w2)"
    by (auto simp: copyFile_def filepath_Dir_def split: prod.splits option.splits)
  from c(1) have "mkdirAll (fs wb) out = Inr (fs w1)"
    by (auto simp: os_MkdirAll_def dest: os_call_fs)
  with mkdirAll_existing [OF cleanDirectory_empty [OF s(2)]] have "fs w1 = fs wb" by simp
  with c(2) b show False
    by (auto simp: os_Open_def dest!: os_call_fs split: sum.splits)
qed

section \<open>How the result of the scanner is read\<close>

text \<open>
  Claim C1. The classification of the vulnerability-scan stage. Take a scan in which
  staging and the first three stages succeeded, and in which \<^verbatim>\<open>runOSVScanner\<close>, called
  by \<^verbatim>\<open>main\<close> for the fourth task, started a process that ended with \<open>oc\<close> and
  returned \<open>res\<close>. The process is the scanner, and:
  \<^item> exit code 0: the stage returns \<^verbatim>\<open>nil\<close>, the report is logged as written, and
    \<^verbatim>\<open>main\<close> ends with exit status 0 after setting the bar to 100;
  \<^item> exit code 1 with \<^verbatim>\<open>exitOnVuln\<close> false: the stage logs the warning and returns
    \<^verbatim>\<open>nil\<close>, and \<^verbatim>\<open>main\<close> ends in the same way, with exit status 0 and the entry
    that the process completed successfully;
  \<^item> exit code 1 with \<^verbatim>\<open>exitOnVuln\<close> true: the stage returns the error
    \<open>VulnerabilitiesFound\<close>, and \<^verbatim>\<open>main\<close> dies with the fatal entry that names the
    stage, with exit status 1;
  \<^item> any other exit code, a signal, or a failure to launch: the stage returns the error
    \<open>OSVScannerError\<close>, whatever \<^verbatim>\<open>exitOnVuln\<close> is, and \<^verbatim>\<open>main\<close> dies with exit
    status 1.
\<close>

theorem scan_result_classification:
  assumes "\<not> showHelp f" and "\<not> check f"
    and "\<not> os_IsNotExist (os_Stat (pomFile f) w)"
    and "stage_artifacts env (pomFile f) (outputDir f) w = (None, w0)"
    and "run_tasks (take 3 (tasks env f)) 0
           (emit (BarSet 10) (emit (NewBar 100) (emit (Log Info CopyingPom) w0))) = (None, cp, w3)"
    and "runOSVScanner env (outputDir f @ [''sbom.xml'']) (exitOnVuln f)
           (emit (Log Info (TaskName ''Scanning for Vulnerabilities'')) w3) = (res, w4)"
    and "runs (trace w4) = runs (trace w3) @ [(c, oc)]"
  shows "c = osv_scanner_cmd (outputDir f @ [''sbom.xml''])
               (outputDir f @ [''sbom-vulnerabilities.json'']) \<and>
         (oc = Exited 0 \<longrightarrow>
            res = None \<and>
            trace w4 =
              trace w3 @
              [Log Info (TaskName ''Scanning for Vulnerabilities''), Exec c oc,
               Log Info (ReportWritten (outputDir f @ [''sbom-vulnerabilities.json'']))] \<and>
            main env f w =
              (0, emit (Log Info ProcessCompleted) (emit PrintCompleted (emit BarClear
                    (emit Sleep (emit (BarSet 100) w4)))))) \<and>
         (oc = Exited 1 \<and> \<not> exitOnVuln f \<longrightarrow>
            res = None \<and>
            trace w4 =
              trace w3 @
              [Log Info (TaskName ''Scanning for Vulnerabilities''), Exec c oc,
               Log Warn (VulnerabilitiesWarning (outputDir f @ [''sbom-vulnerabilities.json'']))] \<and>
            main env f w =
              (0, emit (Log Info ProcessCompleted) (emit PrintCompleted (emit BarClear
                    (emit Sleep (emit (BarSet 100) w4)))))) \<and>
         (oc = Exited 1 \<and> exitOnVuln f \<longrightarrow>
            res = Some (VulnerabilitiesFound (outputDir f @ [''sbom-vulnerabilities.json''])) \<and>
            main env f w =
              (1, emit (Log Fatal (TaskError ''Scanning for Vulnerabilities''
                         (VulnerabilitiesFound (outputDir f @ [''sbom-vulnerabilities.json'']))))
                    (emit Println w4))) \<and>
         (oc \<noteq> Exited 0 \<and> oc \<noteq> Exited 1 \<longrightarrow>
            (\<exists>err. wait_err oc = Some err \<and> res = Some (OSVScannerError err) \<and>
               main env f w =
                 (1, emit (Log Fatal (TaskError ''Scanning for Vulnerabilities''
                            (OSVScannerError err))) (emit Println w4))))"
proof -
  let ?W = "emit (BarSet 10) (emit (NewBar 100) (emit (Log Info CopyingPom) w0))"
  let ?n = "''Scanning for Vulnerabilities''"
  let ?t = "\<lparr>name = ?n,
       action = runOSVScanner env (outputDir f @ [''sbom.xml'']) (exitOnVuln f),
       progress = 30\<rparr>"
  have split: "tasks env f = take 3 (tasks env f) @ [?t]"
    by (simp add: tasks_unfold numeral_3_eq_3)
  from run_tasks_progress [OF assms(5)] have cp: "cp = 70"
    by (simp add: tasks_unfold numeral_3_eq_3)
  have "run_tasks (tasks env f) 0 ?W = run_tasks [?t] 70 w3"
    using assms(5) cp by (subst split) (simp add: run_tasks_append del: run_tasks.simps)
  with main_pipeline [OF assms(1-4)] assms(6)
  have m: "main env f w =
      (case res of
         None \<Rightarrow> (0, emit (Log Info ProcessCompleted) (emit PrintCompleted (emit BarClear
                    (emit Sleep (emit (BarSet 100) w4)))))
       | Some err \<Rightarrow> (1, emit (Log Fatal (TaskError ?n err)) (emit Println w4)))"
    by (simp add: logger_Fatalf_def split: option.splits)
  from runOSVScanner_cases [OF assms(6)] assms(7)
  show ?thesis
    unfolding m by (auto simp: report_path_sbom runs_def)
qed

theorem scan_result_classification_witness:
  "fst (main (mock_env '''' (Exited 0) no_fault) (scan_flags False) (initial project)) = 0 \<and>
   fst (main (mock_env '''' (Exited 1) no_fault) (scan_flags False) (initial project)) = 0 \<and>
   VulnerabilitiesWarning [''out'', ''sbom-vulnerabilities.json'']
     \<in> set (warnings
         (trace (snd (main (mock_env '''' (Exited 1) no_fault) (scan_flags False) (initial project))))) \<and>
   fst (main (mock_env '''' (Exited 1) no_fault) (scan_flags True) (initial project)) = 1 \<and>
   fst (main (mock_env '''' (Exited 2) no_fault) (scan_flags True) (initial project)) = 1 \<and>
   fst (main (mock_env '''' LaunchFailure no_fault) (scan_flags False) (initial project)) = 1"
proof -
  let ?c = "osv_scanner_cmd [''out'', ''sbom.xml''] [''out'', ''sbom-vulnerabilities.json'']"
  let ?n = "''Scanning for Vulnerabilities''"
  have clean: "fst (main (mock_env '''' (Exited 0) no_fault) (scan_flags False) (initial project)) = 0"
  proof -
    let ?env = "mock_env '''' (Exited 0) no_fault"
    let ?f = "scan_flags False"
    let ?w0 = "snd (stage_artifacts ?env (pomFile ?f) (outputDir ?f) (initial project))"
    let ?W = "emit (BarSet 10) (emit (NewBar 100) (emit (Log Info CopyingPom) ?w0))"
    let ?w3 = "snd (snd (run_tasks (take 3 (tasks ?env ?f)) 0 ?W))"
    let ?w4 = "snd (runOSVScanner ?env (outputDir ?f @ [''sbom.xml'']) (exitOnVuln ?f)
        (emit (Log Info (TaskName ?n)) ?w3))"
    have a: "\<not> showHelp ?f" "\<not> check ?f" by (simp_all add: scan_flags_def)
    have b: "\<not> os_IsNotExist (os_Stat (pomFile ?f) (initial project))" by code_simp
    have "fst (stage_artifacts ?env (pomFile ?f) (outputDir ?f) (initial project)) = None"
      by code_simp
    then have c: "stage_artifacts ?env (pomFile ?f) (outputDir ?f) (initial project) = (None, ?w0)"
      by (simp add: prod_eq_iff)
    have "fst (run_tasks (take 3 (tasks ?env ?f)) 0 ?W) = None"
      "fst (snd (run_tasks (take 3 (tasks ?env ?f)) 0 ?W)) = 70"
      by code_simp+
    then have e: "run_tasks (take 3 (tasks ?env ?f)) 0 ?W = (None, 70, ?w3)"
      by (simp add: prod_eq_iff)
    have h: "runs (trace ?w4) = runs (trace ?w3) @ [(?c, Exited 0)]" by code_simp
    note th = scan_result_classification [OF a b c e surjective_pairing h]
    from th have m: "main ?env ?f (initial project) =
        (0, emit (Log Info ProcessCompleted) (emit PrintCompleted (emit BarClear
              (emit Sleep (emit (BarSet 100) ?w4)))))"
      by blast
    show ?thesis by (simp only: m fst_conv)
  qed
  have advisory: "fst (main (mock_env '''' (Exited 1) no_fault) (scan_flags False) (initial project)) = 0 \<and>
      VulnerabilitiesWarning [''out'', ''sbom-vulnerabilities.json'']
        \<in> set (warnings
            (trace (snd (main (mock_env '''' (Exited 1) no_fault) (scan_flags False) (initial project)))))"
  proof -
    let ?env = "mock_env '''' (Exited 1) no_fault"
    let ?f = "scan_flags False"
    let ?w0 = "snd (stage_artifacts ?env (pomFile ?f) (outputDir ?f) (initial project))"
    let ?W = "emit (BarSet 10) (emit (NewBar 100) (emit (Log Info CopyingPom) ?w0))"
    let ?w3 = "snd (snd (run_tasks (take 3 (tasks ?env ?f)) 0 ?W))"
    let ?w4 = "snd (runOSVScanner ?env (outputDir ?f @ [''sbom.xml'']) (exitOnVuln ?f)
        (emit (Log Info (TaskName ?n)) ?w3))"
    have a: "\<not> showHelp ?f" "\<not> check ?f" "\<not> exitOnVuln ?f" by (simp_all add: scan_flags_def)
    have o: "outputDir ?f = [''out'']" by (simp add: scan_flags_def)
    have b: "\<not> os_IsNotExist (os_Stat (pomFile ?f) (initial project))" by code_simp
    have "fst (stage_artifacts ?env (pomFile ?f) (outputDir ?f) (initial project)) = None"
      by code_simp
    then have c: "stage_artifacts ?env (pomFile ?f) (outputDir ?f) (initial project) = (None, ?w0)"
      by (simp add: prod_eq_iff)
    have "fst (run_tasks (take 3 (tasks ?env ?f)) 0 ?W) = None"
      "fst (snd (run_tasks (take 3 (tasks ?env ?f)) 0 ?W)) = 70"
      by code_simp+
    then have e: "run_tasks (take 3 (tasks ?env ?f)) 0 ?W = (None, 70, ?w3)"
      by (simp add: prod_eq_iff)
    have h: "runs (trace ?w4) = runs (trace ?w3) @ [(?c, Exited 1)]" by code_simp
    note th = scan_result_classification [OF a(1,2) b c e surjective_pairing h]
    from th a(3) have m: "main ?env ?f (initial project) =
        (0, emit (Log Info ProcessCompleted) (emit PrintCompleted (emit BarClear
              (emit Sleep (emit (BarSet 100) ?w4)))))"
      and t: "trace ?w4 = trace ?w3 @ [Log Info (TaskName ?n), Exec ?c (Exited 1),
          Log Warn (VulnerabilitiesWarning (outputDir ?f @ [''sbom-vulnerabilities.json'']))]"
      by blast+
    have key: "\<And>w4 tr x y v e1 e2 e3 e4 e5.
        trace w4 = tr @ [x, y, Log Warn v] \<Longrightarrow>
        v \<in> set (warnings (trace (emit e1 (emit e2 (emit e3 (emit e4 (emit e5 w4)))))))"
      by (simp add: warnings_def)
    have "VulnerabilitiesWarning (outputDir ?f @ [''sbom-vulnerabilities.json''])
        \<in> set (warnings (trace (snd (main ?env ?f (initial project)))))"
      using key [OF t] by (simp only: m snd_conv)
    then have "VulnerabilitiesWarning [''out'', ''sbom-vulnerabilities.json'']
        \<in> set (warnings (trace (snd (main ?env ?f (initial project)))))"
      by (simp only: o append_Cons append_Nil)
    moreover have "fst (main ?env ?f (initial project)) = 0" by (simp only: m fst_conv)
    ultimately show ?thesis by blast
  qed
  have found: "fst (main (mock_env '''' (Exited 1) no_fault) (scan_flags True) (initial project)) = 1"
  proof -
    let ?env = "mock_env '''' (Exited 1) no_fault"
    let ?f = "scan_flags True"
    let ?w0 = "snd (stage_artifacts ?env (pomFile ?f) (outputDir ?f) (initial project))"
    let ?W = "emit (BarSet 10) (emit (NewBar 100) (emit (Log Info CopyingPom) ?w0))"
    let ?w3 = "snd (snd (run_tasks (take 3 (tasks ?env ?f)) 0 ?W))"
    let ?w4 = "snd (runOSVScanner ?env (outputDir ?f @ [''sbom.xml'']) (exitOnVuln ?f)
        (emit (Log Info (TaskName ?n)) ?w3))"
    have a: "\<not> showHelp ?f" "\<not> check ?f" "exitOnVuln ?f" by (simp_all add: scan_flags_def)
    have b: "\<not> os_IsNotExist (os_Stat (pomFile ?f) (initial project))" by code_simp
    have "fst (stage_artifacts ?env (pomFile ?f) (outputDir ?f) (initial project)) = None"
      by code_simp
    then have c: "stage_artifacts ?env (pomFile ?f) (outputDir ?f) (initial project) = (None, ?w0)"
      by (simp add: prod_eq_iff)
    have "fst (run_tasks (take 3 (tasks ?env ?f)) 0 ?W) = None"
      "fst (snd (run_tasks (take 3 (tasks ?env ?f)) 0 ?W)) = 70"
      by code_simp+
    then have e: "run_tasks (take 3 (tasks ?env ?f)) 0 ?W = (None, 70, ?w3)"
      by (simp add: prod_eq_iff)
    have h: "runs (trace ?w4) = runs (trace ?w3) @ [(?c, Exited 1)]" by code_simp
    note th = scan_result_classification [OF a(1,2) b c e surjective_pairing h]
    from th a(3) have m: "main ?env ?f (initial project) =
        (1, emit (Log Fatal (TaskError ?n
               (VulnerabilitiesFound (outputDir ?f @ [''sbom-vulnerabilities.json'']))))
              (emit Println ?w4))"
      by blast
    show ?thesis by (simp only: m fst_conv)
  qed
  have crashed: "fst (main (mock_env '''' (Exited 2) no_fault) (scan_flags True) (initial project)) = 1"
  proof -
    let ?env = "mock_env '''' (Exited 2) no_fault"
    let ?f = "scan_flags True"
    let ?w0 = "snd (stage_artifacts ?env (pomFile ?f) (outputDir ?f) (initial project))"
    let ?W = "emit (BarSet 10) (emit (NewBar 100) (emit (Log Info CopyingPom) ?w0))"
    let ?w3 = "snd (snd (run_tasks (take 3 (tasks ?env ?f)) 0 ?W))"
    let ?w4 = "snd (runOSVScanner ?env (outputDir ?f @ [''sbom.xml'']) (exitOnVuln ?f)
        (emit (Log Info (TaskName ?n)) ?w3))"
    have a: "\<not> showHelp ?f" "\<not> check ?f" by (simp_all add: scan_flags_def)
    have b: "\<not> os_IsNotExist (os_Stat (pomFile ?f) (initial project))" by code_simp
    have "fst (stage_artifacts ?env (pomFile ?f) (outputDir ?f) (initial project)) = None"
      by code_simp
    then have c: "stage_artifacts ?env (pomFile ?f) (outputDir ?f) (initial project) = (None, ?w0)"
      by (simp add: prod_eq_iff)
    have "fst (run_tasks (take 3 (tasks ?env ?f)) 0 ?W) = None"
      "fst (snd (run_tasks (take 3 (tasks ?env ?f)) 0 ?W)) = 70"
      by code_simp+
    then have e: "run_tasks (take 3 (tasks ?env ?f)) 0 ?W = (None, 70, ?w3)"
      by (simp add: prod_eq_iff)
    have h: "runs (trace ?w4) = runs (trace ?w3) @ [(?c, Exited 2)]" by code_simp
    note th = scan_result_classification [OF a b c e surjective_pairing h]
    from th obtain err where m: "main ?env ?f (initial project) =
        (1, emit (Log Fatal (TaskError ?n (OSVScannerError err))) (emit Println ?w4))"
      by auto
    show ?thesis by (simp only: m fst_conv)
  qed
  have missing: "fst (main (mock_env '''' LaunchFailure no_fault) (scan_flags False)
      (initial project)) = 1"
  proof -
    let ?env = "mock_env '''' LaunchFailure no_fault"
    let ?f = "scan_flags False"
    let ?w0 = "snd (stage_artifacts ?env (pomFile ?f) (outputDir ?f) (initial project))"
    let ?W = "emit (BarSet 10) (emit (NewBar 100) (emit (Log Info CopyingPom) ?w0))"
    let ?w3 = "snd (snd (run_tasks (take 3 (tasks ?env ?f)) 0 ?W))"
    let ?w4 = "snd (runOSVScanner ?env (outputDir ?f @ [''sbom.xml'']) (exitOnVuln ?f)
        (emit (Log Info (TaskName ?n)) ?w3))"
    have a: "\<not> showHelp ?f" "\<not> check ?f" by (simp_all add: scan_flags_def)
    have b: "\<not> os_IsNotExist (os_Stat (pomFile ?f) (initial project))" by code_simp
    have "fst (stage_artifacts ?env (pomFile ?f) (outputDir ?f) (initial project)) = None"
      by code_simp
    then have c: "stage_artifacts ?env (pomFile ?f) (outputDir ?f) (initial project) = (None, ?w0)"
      by (simp add: prod_eq_iff)
    have "fst (run_tasks (take 3 (tasks ?env ?f)) 0 ?W) = None"
      "fst (snd (run_tasks (take 3 (tasks ?env ?f)) 0 ?W)) = 70"
      by code_simp+
    then have e: "run_tasks (take 3 (tasks ?env ?f)) 0 ?W = (None, 70, ?w3)"
      by (simp add: prod_eq_iff)
    have h: "runs (trace ?w4) = runs (trace ?w3) @ [(?c, LaunchFailure)]" by code_simp
    note th = scan_result_classification [OF a b c e surjective_pairing h]
    from th obtain err where m: "main ?env ?f (initial project) =
        (1, emit (Log Fatal (TaskError ?n (OSVScannerError err))) (emit Println ?w4))"
      by auto
    show ?thesis by (simp only: m fst_conv)
  qed
  from clean advisory found crashed missing show ?thesis by blast
qed

section \<open>The order of the stages\<close>

text \<open>
  Claim C2. In every run that reaches the pipeline (a scan whose staging succeeded), the
  stages execute in the fixed order dependency tree, effective POM, SBOM generation,
  vulnerability scan. The stages \<^verbatim>\<open>main\<close> starts are a non-empty prefix of that list
  and the commands it starts are a prefix of the four commands of the pipeline, which
  differ from each other: no stage and no tool comes twice or out of order, so nothing
  is retried. A stage is started only after the tool of every stage before it has been
  run, and at most the stage started last has not run its tool. When the run succeeds,
  all four stages were started and each of the four tools was started exactly once.
\<close>

theorem stage_order:
  assumes "\<not> showHelp f" and "\<not> check f"
    and "\<not> os_IsNotExist (os_Stat (pomFile f) (initial r))"
    and "stage_artifacts env (pomFile f) (outputDir f) (initial r) = (None, w0)"
    and "main env f (initial r) = (code, w')"
  shows "map name (tasks env f) = stage_names \<and>
         stages_started (trace w') \<noteq> [] \<and>
         prefix (stages_started (trace w')) stage_names \<and>
         prefix (execs (trace w')) (pipeline_cmds (outputDir f)) \<and>
         distinct (pipeline_cmds (outputDir f)) \<and>
         length (execs (trace w')) \<le> length (stages_started (trace w')) \<and>
         length (stages_started (trace w')) \<le> Suc (length (execs (trace w'))) \<and>
         (code = 0 \<longrightarrow>
            stages_started (trace w') = stage_names \<and>
            execs (trace w') = pipeline_cmds (outputDir f))"
proof -
  let ?W = "emit (BarSet 10) (emit (NewBar 100) (emit (Log Info CopyingPom) w0))"
  obtain res cp w2 where run: "run_tasks (tasks env f) 0 ?W = (res, cp, w2)"
    using prod_cases3 by blast
  from stage_artifacts_world [OF assms(4)] have "trace w0 = []" by (simp add: initial_def)
  then have W: "stages_started (trace ?W) = []" "execs (trace ?W) = []"
    by (simp_all add: stages_started_def execs_def runs_def)
  from pipeline_log [OF run] W obtain k where k: "k \<le> 4" "res = None \<longleftrightarrow> k = 4"
    "res = None \<or> res = Some 1"
    "stages_started (trace w2) = take (Suc k) stage_names"
    "execs (trace w2) = take k (pipeline_cmds (outputDir f)) \<or>
     execs (trace w2) = take (Suc k) (pipeline_cmds (outputDir f))"
    by auto
  from main_pipeline [OF assms(1-4)] run assms(5) k(3)
  have m: "(res = Some 1 \<and> code = 1 \<and> w' = w2) \<or>
      (res = None \<and> code = 0 \<and>
       w' = emit (Log Info ProcessCompleted) (emit PrintCompleted (emit BarClear w2)))"
    by auto
  then have tr: "stages_started (trace w') = stages_started (trace w2)"
    "execs (trace w') = execs (trace w2)"
    by (auto simp: stages_started_def execs_def runs_def)
  have len: "length stage_names = 4" "length (pipeline_cmds (outputDir f)) = 4"
    by (simp_all add: stage_names_def pipeline_cmds_def)
  have "stages_started (trace w') \<noteq> []"
    using tr k(4) by (simp add: stage_names_def)
  moreover have "prefix (stages_started (trace w')) stage_names"
    using tr k(4) by (simp add: take_is_prefix)
  moreover have "prefix (execs (trace w')) (pipeline_cmds (outputDir f))"
    using tr k(5) by (auto simp: take_is_prefix)
  moreover have "length (execs (trace w')) \<le> length (stages_started (trace w'))"
    using tr k(1,4,5) len by auto
  moreover have "length (stages_started (trace w')) \<le> Suc (length (execs (trace w')))"
    using tr k(1,4,5) len by auto
  moreover have "code = 0 \<longrightarrow>
      stages_started (trace w') = stage_names \<and> execs (trace w') = pipeline_cmds (outputDir f)"
    using m tr k len by auto
  ultimately show ?thesis
    by (simp add: tasks_names pipeline_cmds_distinct)
qed

theorem stage_order_witness:
  "stages_started
     (trace (snd (main (mock_env '''' (Exited 0) no_fault) (scan_flags False) (initial project)))) =
     stage_names \<and>
   execs (trace (snd (main (mock_env '''' (Exited 0) no_fault) (scan_flags False) (initial project)))) =
     pipeline_cmds [''out'']"
proof -
  let ?env = "mock_env '''' (Exited 0) no_fault"
  let ?f = "scan_flags False"
  let ?w0 = "snd (stage_artifacts ?env (pomFile ?f) (outputDir ?f) (initial project))"
  have a: "\<not> showHelp ?f" "\<not> check ?f" by (simp_all add: scan_flags_def)
  have b: "\<not> os_IsNotExist (os_Stat (pomFile ?f) (initial project))" by code_simp
  have "fst (stage_artifacts ?env (pomFile ?f) (outputDir ?f) (initial project)) = None"
    by code_simp
  then have c: "stage_artifacts ?env (pomFile ?f) (outputDir ?f) (initial project) = (None, ?w0)"
    by (simp add: prod_eq_iff)
  have d: "fst (main ?env ?f (initial project)) = 0" by code_simp
  have o: "outputDir ?f = [''out'']" by (simp add: scan_flags_def)
  from stage_order [OF a b c surjective_pairing] d o show ?thesis
    by (simp only:)
qed

section \<open>The first failing stage ends the run\<close>

text \<open>
  Claim C3. If a stage returns an error (every error a stage returns is fatal: the
  advisory finding of the scan comes back as \<^verbatim>\<open>nil\<close>), no later stage executes. In
  a scan whose staging succeeded, let the stages \<open>pre\<close> before stage \<open>t\<close> succeed and
  let \<open>t\<close> return the error \<open>err\<close> in the world \<open>w2\<close>. Then \<^verbatim>\<open>main\<close> ends with
  exit status 1, and the world it leaves is \<open>w2\<close> with an empty line printed and the
  fatal log entry that names the stage and carries \<open>err\<close>: nothing is retried, nothing
  is rolled back (the file tree is the one of \<open>w2\<close>), and the stages that were started
  are those of \<open>pre\<close> and \<open>t\<close>, none of the stages \<open>post\<close> that follow.
\<close>

theorem fail_fast:
  assumes "\<not> showHelp f" and "\<not> check f"
    and "\<not> os_IsNotExist (os_Stat (pomFile f) w)"
    and "stage_artifacts env (pomFile f) (outputDir f) w = (None, w0)"
    and "tasks env f = pre @ t # post"
    and "run_tasks pre 0 (emit (BarSet 10) (emit (NewBar 100) (emit (Log Info CopyingPom) w0))) =
           (None, cp, w1)"
    and "action t (emit (Log Info (TaskName (name t))) w1) = (Some err, w2)"
  shows "main env f w = (1, emit (Log Fatal (TaskError (name t) err)) (emit Println w2)) \<and>
         stages_started (trace (snd (main env f w))) =
           stages_started (trace w) @ map name pre @ [name t] \<and>
         fs (snd (main env f w)) = fs w2"
proof -
  let ?W = "emit (BarSet 10) (emit (NewBar 100) (emit (Log Info CopyingPom) w0))"
  have "run_tasks (tasks env f) 0 ?W =
      (Some 1, cp, emit (Log Fatal (TaskError (name t) err)) (emit Println w2))"
    using assms(5-7) by (simp add: run_tasks_append logger_Fatalf_def)
  with main_pipeline [OF assms(1-4)]
  have m: "main env f w = (1, emit (Log Fatal (TaskError (name t) err)) (emit Println w2))"
    by simp
  have q: "\<And>t' w r w'. t' \<in> set pre \<Longrightarrow> action t' w = (r, w') \<Longrightarrow>
      stages_started (trace w') = stages_started (trace w)"
    using tasks_quiet [of _ env f] assms(5) by auto
  from run_tasks_stages [OF q assms(6)]
  have "stages_started (trace w1) = stages_started (trace ?W) @ map name pre" by simp
  moreover have "stages_started (trace ?W) = stages_started (trace w)"
    using stage_artifacts_world [OF assms(4)] by (simp add: stages_started_def)
  moreover have "stages_started (trace w2) = stages_started (trace w1) @ [name t]"
    using tasks_quiet [of t env f, OF _ assms(7)] assms(5) by (simp add: stages_started_def)
  ultimately show ?thesis using m by (simp add: stages_started_def)
qed

theorem fail_fast_witness:
  "fst (main (mock_env ''help:effective-pom'' (Exited 0) no_fault) (scan_flags False) (initial project)) = 1 \<and>
   stages_started
     (trace (snd (main (mock_env ''help:effective-pom'' (Exited 0) no_fault) (scan_flags False)
        (initial project)))) =
     [''Analyzing Dependencies'', ''Generating Effective POM'']"
proof -
  let ?env = "mock_env ''help:effective-pom'' (Exited 0) no_fault"
  let ?f = "scan_flags False"
  let ?w0 = "snd (stage_artifacts ?env (pomFile ?f) (outputDir ?f) (initial project))"
  let ?W = "emit (BarSet 10) (emit (NewBar 100) (emit (Log Info CopyingPom) ?w0))"
  let ?pre = "take 1 (tasks ?env ?f)"
  let ?t = "tasks ?env ?f ! 1"
  let ?post = "drop 2 (tasks ?env ?f)"
  let ?w1 = "snd (snd (run_tasks ?pre 0 ?W))"
  let ?w2 = "snd (action ?t (emit (Log Info (TaskName (name ?t))) ?w1))"
  have a: "\<not> showHelp ?f" "\<not> check ?f" by (simp_all add: scan_flags_def)
  have b: "\<not> os_IsNotExist (os_Stat (pomFile ?f) (initial project))" by code_simp
  have "fst (stage_artifacts ?env (pomFile ?f) (outputDir ?f) (initial project)) = None"
    by code_simp
  then have c: "stage_artifacts ?env (pomFile ?f) (outputDir ?f) (initial project) = (None, ?w0)"
    by (simp add: prod_eq_iff)
  have d: "tasks ?env ?f = ?pre @ ?t # ?post" by (simp add: tasks_unfold)
  have "fst (run_tasks ?pre 0 ?W) = None" "fst (snd (run_tasks ?pre 0 ?W)) = 20"
    by code_simp+
  then have e: "run_tasks ?pre 0 ?W = (None, 20, ?w1)" by (simp add: prod_eq_iff)
  have "fst (action ?t (emit (Log Info (TaskName (name ?t))) ?w1)) =
      Some (EffectivePomFailed (ExitError 1) ''BUILD FAILURE'')"
    by code_simp
  then have g: "action ?t (emit (Log Info (TaskName (name ?t))) ?w1) =
      (Some (EffectivePomFailed (ExitError 1) ''BUILD FAILURE''), ?w2)"
    by (simp add: prod_eq_iff)
  note th = fail_fast [OF a b c d e g]
  have m: "fst (main ?env ?f (initial project)) = 1"
    using th [THEN conjunct1] by (simp only: fst_conv)
  have "stages_started (trace (initial project)) @ map name ?pre @ [name ?t] =
      [''Analyzing Dependencies'', ''Generating Effective POM'']"
    by (simp add: tasks_unfold initial_def stages_started_def)
  with th [THEN conjunct2, THEN conjunct1] m show ?thesis
    by (simp only:)
qed

section \<open>An SBOM that was not produced\<close>

text \<open>
  Claim C4. In the SBOM-generation stage, if the BOM-generation subprocess exits with
  status 0 but the expected file \<^verbatim>\<open>target/bom.xml\<close> is not in the scratch directory
  under the output directory, \<^verbatim>\<open>generateCycloneDX\<close> returns the error
  \<open>MoveSBOMFailed\<close> (\<^verbatim>\<open>failed to move SBOM to output dir\<close>), which is not the error
  \<open>CycloneDXFailed\<close> of a failed subprocess, and it does not report success. The world
  it returns is the one the subprocess left.
\<close>

theorem missing_bom_is_fatal:
  assumes "fault env (Abs pomPath) = None"
    and "fault env (Abs outputPath) = None"
    and "os_MkdirAll env (filepath_Dir outputPath @ [''target'']) w = (None, w1)"
    and "start env (cyclonedx_cmd pomPath (filepath_Dir outputPath)) w1 = (Exited 0, out, w2)"
    and "lookup (fs w2) (filepath_Dir outputPath @ [''target'', ''bom.xml'']) = Inl e"
  shows "\<exists>e'. generateCycloneDX env pomPath outputPath w = (Some (MoveSBOMFailed e'), w2)"
proof -
  from assms(5) obtain e' where
    "os_Rename env (filepath_Dir outputPath @ [''target'', ''bom.xml'']) outputPath w2 =
       (Some e', w2)"
    using os_Rename_missing by blast
  with assms(1-4) show ?thesis
    by (simp add: generateCycloneDX_def filepath_Abs_ok Let_def filepath_Join_def
        cmd_CombinedOutput_def wait_err_def)
qed

theorem missing_bom_is_fatal_witness:
  "generateCycloneDX idle_env [''out'', ''pom.xml''] [''out'', ''sbom.xml''] (initial project) =
     (Some (MoveSBOMFailed ENOENT),
      \<lparr>fs = Dir [(''pom.xml'', File ''<project/>''),
                 (''out'', Dir [(''old.txt'', File ''x''), (''target'', Dir [])])],
       trace = [Exec (cyclonedx_cmd [''out'', ''pom.xml''] [''out'']) (Exited 0)]\<rparr>)"
proof -
  let ?w1 = "\<lparr>fs = Dir [(''pom.xml'', File ''<project/>''),
                 (''out'', Dir [(''old.txt'', File ''x''), (''target'', Dir [])])],
       trace = []\<rparr>"
  let ?w2 = "\<lparr>fs = Dir [(''pom.xml'', File ''<project/>''),
                 (''out'', Dir [(''old.txt'', File ''x''), (''target'', Dir [])])],
       trace = [Exec (cyclonedx_cmd [''out'', ''pom.xml''] [''out'']) (Exited 0)]\<rparr>"
  have a: "fault idle_env (Abs [''out'', ''pom.xml'']) = None"
    "fault idle_env (Abs [''out'', ''sbom.xml'']) = None"
    by (simp_all add: idle_env_def no_fault_def)
  have b: "os_MkdirAll idle_env (filepath_Dir [''out'', ''sbom.xml''] @ [''target''])
      (initial project) = (None, ?w1)"
    by (simp add: os_MkdirAll_def os_call_def idle_env_def no_fault_def filepath_Dir_def
        initial_def project_def)
  have c: "start idle_env (cyclonedx_cmd [''out'', ''pom.xml''] (filepath_Dir [''out'', ''sbom.xml'']))
      ?w1 = (Exited 0, '''', ?w2)"
    by (simp add: start_def idle_env_def emit_def filepath_Dir_def)
  have d: "lookup (fs ?w2) (filepath_Dir [''out'', ''sbom.xml''] @ [''target'', ''bom.xml'']) =
      Inl ENOENT"
    by (simp add: filepath_Dir_def)
  from missing_bom_is_fatal [OF a b c d] obtain e' where
    r: "generateCycloneDX idle_env [''out'', ''pom.xml''] [''out'', ''sbom.xml''] (initial project) =
      (Some (MoveSBOMFailed e'), ?w2)" by blast
  have "generateCycloneDX idle_env [''out'', ''pom.xml''] [''out'', ''sbom.xml''] (initial project) =
      (Some (MoveSBOMFailed ENOENT), ?w2)"
    by code_simp
  with r show ?thesis by simp
qed

section \<open>Staging twice\<close>

text \<open>
  Claim C5. Artifact staging is idempotent. The staging step of \<^verbatim>\<open>main\<close> makes sure
  the output directory exists, removes every entry of it and copies the POM file into
  it as \<^verbatim>\<open>pom.xml\<close>. After a staging that succeeds, the listing of the output
  directory is \<^verbatim>\<open>pom.xml\<close> alone, whatever the directory held before; so when staging
  runs a second time on the directory the first run left, the listing after the second
  run equals the listing after the first.
\<close>

theorem staging_idempotent:
  assumes "stage_artifacts env1 pom out w = (None, w1)"
    and "stage_artifacts env2 pom out w1 = (None, w2)"
  shows "readDir (fs w2) out = readDir (fs w1) out \<and>
         readDir (fs w1) out = Inr [''pom.xml'']"
  using stage_artifacts_listing [OF assms(1)] stage_artifacts_listing [OF assms(2)]
  by simp

theorem staging_idempotent_witness:
  "readDir project [''out''] = Inr [''old.txt''] \<and>
   readDir (fs (snd (stage_artifacts (mock_env '''' (Exited 0) no_fault) [''pom.xml''] [''out'']
      (snd (stage_artifacts (mock_env '''' (Exited 0) no_fault) [''pom.xml''] [''out''] (initial project))))))
     [''out''] =
   readDir (fs (snd (stage_artifacts (mock_env '''' (Exited 0) no_fault) [''pom.xml''] [''out'']
      (initial project)))) [''out'']"
proof -
  let ?env = "mock_env '''' (Exited 0) no_fault"
  let ?w1 = "snd (stage_artifacts ?env [''pom.xml''] [''out''] (initial project))"
  let ?w2 = "snd (stage_artifacts ?env [''pom.xml''] [''out''] ?w1)"
  have "fst (stage_artifacts ?env [''pom.xml''] [''out''] (initial project)) = None"
    by code_simp
  then have a: "stage_artifacts ?env [''pom.xml''] [''out''] (initial project) = (None, ?w1)"
    by (simp add: prod_eq_iff)
  have "fst (stage_artifacts ?env [''pom.xml''] [''out''] ?w1) = None"
    by code_simp
  then have b: "stage_artifacts ?env [''pom.xml''] [''out''] ?w1 = (None, ?w2)"
    by (simp add: prod_eq_iff)
  have c: "readDir project [''out''] = Inr [''old.txt'']" by code_simp
  from staging_idempotent [OF a b] c show ?thesis by blast
qed

section \<open>A descriptor that is not there\<close>

text \<open>
  Claim C6. If the supplied descriptor path does not exist, the program exits non-zero
  before invoking any external tool. The claim is about a scan: the run that only
  prints the usage and the run that only checks the dependencies end before
  \<^verbatim>\<open>main\<close> looks at the descriptor. In a scan whose descriptor path does not resolve
  in the file tree, \<^verbatim>\<open>main\<close> ends with exit status 1, the one entry it adds to the
  log is a fatal one, no command is started and no stage begins. When \<^verbatim>\<open>os.Stat\<close>
  reports that the path does not exist, as it does for a path with a missing component,
  the entry is \<^verbatim>\<open>POM file not found\<close> and nothing else has happened; when a file
  stands where a directory of the path is needed, it is staging that fails, at the
  latest when the descriptor is opened for copying.
\<close>

theorem missing_descriptor:
  assumes "\<not> showHelp f" and "\<not> check f"
    and "lookup (fs w) (pomFile f) = Inl e"
  shows "fst (main env f w) = 1 \<and>
         (\<exists>m. trace (snd (main env f w)) = trace w @ [Log Fatal m]) \<and>
         runs (trace (snd (main env f w))) = runs (trace w) \<and>
         stages_started (trace (snd (main env f w))) = stages_started (trace w) \<and>
         (os_IsNotExist (os_Stat (pomFile f) w) \<longrightarrow>
            main env f w = (1, emit (Log Fatal (PomNotFound (pomFile f))) w))"
proof (cases "os_IsNotExist (os_Stat (pomFile f) w)")
  case True
  with assms have "main env f w = (1, emit (Log Fatal (PomNotFound (pomFile f))) w)"
    by (simp add: main_def logger_Fatalf_def)
  then show ?thesis by (simp add: runs_def stages_started_def)
next
  case False
  with assms(3) lookup_errno have nd: "lookup (fs w) (pomFile f) = Inl ENOTDIR"
    unfolding os_Stat_lookup by blast
  from stage_artifacts_unresolved [OF nd] obtain m w1 where
    s: "stage_artifacts env (pomFile f) (outputDir f) w = (Some m, w1)" by blast
  from assms(1,2) False s have "main env f w = (1, emit (Log Fatal m) w1)"
    by (simp add: main_def logger_Fatalf_def)
  with stage_artifacts_world [OF s] False show ?thesis
    by (auto simp: runs_def stages_started_def)
qed

theorem missing_descriptor_witness:
  "lookup (fs (initial project)) [''data'', ''pom.xml''] = Inl ENOENT \<and>
   main (mock_env '''' (Exited 0) no_fault) ((scan_flags False)\<lparr>pomFile := [''data'', ''pom.xml'']\<rparr>)
     (initial project) =
     (1, \<lparr>fs = project, trace = [Log Fatal (PomNotFound [''data'', ''pom.xml''])]\<rparr>) \<and>
   lookup (fs (initial project)) [''pom.xml'', ''pom.xml''] = Inl ENOTDIR \<and>
   fst (main (mock_env '''' (Exited 0) no_fault)
         ((scan_flags False)\<lparr>pomFile := [''pom.xml'', ''pom.xml'']\<rparr>) (initial project)) = 1"
proof -
  let ?f = "(scan_flags False)\<lparr>pomFile := [''data'', ''pom.xml'']\<rparr>"
  let ?g = "(scan_flags False)\<lparr>pomFile := [''pom.xml'', ''pom.xml'']\<rparr>"
  have a: "\<not> showHelp ?f" "\<not> check ?f" "\<not> showHelp ?g" "\<not> check ?g"
    by (simp_all add: scan_flags_def)
  have b: "lookup (fs (initial project)) (pomFile ?f) = Inl ENOENT"
    by (simp add: initial_def project_def)
  have c: "lookup (fs (initial project)) (pomFile ?g) = Inl ENOTDIR"
    by (simp add: initial_def project_def)
  from b have d: "os_IsNotExist (os_Stat (pomFile ?f) (initial project))"
    by (simp only: os_Stat_lookup)
  from missing_descriptor [OF a(1,2) b, of "mock_env '''' (Exited 0) no_fault"]
    missing_descriptor [OF a(3,4) c, of "mock_env '''' (Exited 0) no_fault"] b c d
  show ?thesis
    by (simp add: initial_def emit_def)
qed

section \<open>Cleaning up the scratch directory\<close>

text \<open>
  Claim C7. In the SBOM-generation stage, once the produced BOM file has been moved to
  its final path, a failure to remove the scratch directory \<^verbatim>\<open>target\<close> is logged as
  a warning and \<^verbatim>\<open>generateCycloneDX\<close> still returns \<^verbatim>\<open>nil\<close>; the loop of \<^verbatim>\<open>main\<close>
  that called it for a task goes on with the tasks that follow, so the failure fails
  neither the stage nor the run.
\<close>

theorem cleanup_failure_is_warning:
  assumes "w = emit (Log Info (TaskName n)) w0"
    and "fault env (Abs pomPath) = None"
    and "fault env (Abs outputPath) = None"
    and "os_MkdirAll env (filepath_Dir outputPath @ [''target'']) w = (None, w1)"
    and "cmd_CombinedOutput env (cyclonedx_cmd pomPath (filepath_Dir outputPath)) w1 =
           (None, out, w2)"
    and "os_Rename env (filepath_Dir outputPath @ [''target'', ''bom.xml'']) outputPath w2 =
           (None, w3)"
    and "os_RemoveAll env (filepath_Dir outputPath @ [''target'']) w3 = (Some e, w4)"
  shows "generateCycloneDX env pomPath outputPath w =
           (None, emit (Log Info (BOMWritten outputPath))
                    (emit (Log Warn (CleanupTargetFailed e)) w3)) \<and>
         run_tasks
           (\<lparr>name = n, action = generateCycloneDX env pomPath outputPath, progress = p\<rparr> # ts)
           cp w0 =
           run_tasks ts (cp + p)
             (emit Sleep (emit (BarSet (cp + p))
                (emit (Log Info (BOMWritten outputPath))
                   (emit (Log Warn (CleanupTargetFailed e)) w3))))"
proof -
  from os_RemoveAll_world [OF assms(7)] have "w4 = w3" by simp
  with assms(2-7) have r: "generateCycloneDX env pomPath outputPath w =
      (None, emit (Log Info (BOMWritten outputPath))
               (emit (Log Warn (CleanupTargetFailed e)) w3))"
    by (simp add: generateCycloneDX_def filepath_Abs_ok Let_def filepath_Join_def)
  with assms(1) show ?thesis by simp
qed

theorem cleanup_failure_is_warning_witness:
  "generateCycloneDX (mock_env '''' (Exited 0) (deny (RemoveAll [''out'', ''target'']))) [''out'', ''pom.xml'']
     [''out'', ''sbom.xml''] (emit (Log Info (TaskName ''Generating CycloneDX SBOM'')) (initial project)) =
   (None,
    \<lparr>fs = Dir [(''pom.xml'', File ''<project/>''),
               (''out'', Dir [(''old.txt'', File ''x''), (''target'', Dir []),
                              (''sbom.xml'', File ''<bom/>'')])],
      trace = [Log Info (TaskName ''Generating CycloneDX SBOM''),
               Exec (cyclonedx_cmd [''out'', ''pom.xml''] [''out'']) (Exited 0),
               Log Warn (CleanupTargetFailed EACCES),
               Log Info (BOMWritten [''out'', ''sbom.xml''])]\<rparr>)"
proof -
  let ?env = "mock_env '''' (Exited 0) (deny (RemoveAll [''out'', ''target'']))"
  let ?n = "''Generating CycloneDX SBOM''"
  let ?w = "emit (Log Info (TaskName ?n)) (initial project)"
  let ?w1 = "\<lparr>fs = Dir [(''pom.xml'', File ''<project/>''),
                 (''out'', Dir [(''old.txt'', File ''x''), (''target'', Dir [])])],
       trace = [Log Info (TaskName ?n)]\<rparr>"
  let ?w2 = "\<lparr>fs = Dir [(''pom.xml'', File ''<project/>''),
                 (''out'', Dir [(''old.txt'', File ''x''),
                    (''target'', Dir [(''bom.xml'', File ''<bom/>'')])])],
       trace = [Log Info (TaskName ?n),
                Exec (cyclonedx_cmd [''out'', ''pom.xml''] [''out'']) (Exited 0)]\<rparr>"
  let ?w3 = "\<lparr>fs = Dir [(''pom.xml'', File ''<project/>''),
                 (''out'', Dir [(''old.txt'', File ''x''), (''target'', Dir []),
                                (''sbom.xml'', File ''<bom/>'')])],
       trace = [Log Info (TaskName ?n),
                Exec (cyclonedx_cmd [''out'', ''pom.xml''] [''out'']) (Exited 0)]\<rparr>"
  have a: "fault ?env (Abs [''out'', ''pom.xml'']) = None"
    "fault ?env (Abs [''out'', ''sbom.xml'']) = None"
    by (simp_all add: mock_env_def deny_def)
  have b: "os_MkdirAll ?env (filepath_Dir [''out'', ''sbom.xml''] @ [''target'']) ?w = (None, ?w1)"
    by code_simp
  have c: "cmd_CombinedOutput ?env
      (cyclonedx_cmd [''out'', ''pom.xml''] (filepath_Dir [''out'', ''sbom.xml''])) ?w1 =
      (None, '''', ?w2)"
    by code_simp
  have d: "os_Rename ?env (filepath_Dir [''out'', ''sbom.xml''] @ [''target'', ''bom.xml''])
      [''out'', ''sbom.xml''] ?w2 = (None, ?w3)"
    by code_simp
  have e: "os_RemoveAll ?env (filepath_Dir [''out'', ''sbom.xml''] @ [''target'']) ?w3 =
      (Some EACCES, ?w3)"
    by code_simp
  from cleanup_failure_is_warning [OF refl a b c d e]
  show ?thesis by (simp add: emit_def)
qed

section \<open>The progress bar\<close>

text \<open>
  Claim C8. The values \<^verbatim>\<open>main\<close> sets the progress bar to (10 before the first task,
  then \<^verbatim>\<open>completedProgress\<close> after each task) are a prefix of 10, 20, 40, 70, 100: they
  never decrease and lie between 0 and 100. The weights of the four tasks sum to 100.
  The bar is set to 100 only after all four stages have completed: the log up to that
  point shows the four stages started and the four tools run, the three Maven goals
  with exit status 0 and the scanner with a status that the stage takes for success,
  and no earlier value of the bar is 100; the run then ends with exit status 0.
\<close>

theorem progress_monotone:
  assumes "main env f (initial r) = (code, w')"
  shows "prefix (bar_values (trace w')) [10, 20, 40, 70, 100] \<and>
         sorted (bar_values (trace w')) \<and>
         (\<forall>v\<in>set (bar_values (trace w')). 0 \<le> v \<and> v \<le> 100) \<and>
         sum_list (map progress (tasks env f)) = 100 \<and>
         (100 \<in> set (bar_values (trace w')) \<longrightarrow>
            code = 0 \<and>
            (\<exists>pre oc.
               trace w' =
                 pre @ [BarSet 100, Sleep, BarClear, PrintCompleted, Log Info ProcessCompleted] \<and>
               stages_started pre = stage_names \<and>
               runs pre = zip (pipeline_cmds (outputDir f)) [Exited 0, Exited 0, Exited 0, oc] \<and>
               (oc = Exited 0 \<or> oc = Exited 1 \<and> \<not> exitOnVuln f) \<and>
               100 \<notin> set (bar_values pre)))"
proof -
  let ?bv = "bar_values (trace w')"
  let ?done = "code = 0 \<and>
      (\<exists>pre oc.
         trace w' =
           pre @ [BarSet 100, Sleep, BarClear, PrintCompleted, Log Info ProcessCompleted] \<and>
         stages_started pre = stage_names \<and>
         runs pre = zip (pipeline_cmds (outputDir f)) [Exited 0, Exited 0, Exited 0, oc] \<and>
         (oc = Exited 0 \<or> oc = Exited 1 \<and> \<not> exitOnVuln f) \<and>
         bar_values pre = [10, 20, 40, 70])"
  from main_bar_values [OF assms] consider "?bv = []" | "?bv = [10]" | "?bv = [10, 20]"
    | "?bv = [10, 20, 40]" | "?bv = [10, 20, 40, 70]" | "?bv = [10, 20, 40, 70, 100]" "?done"
  proof (elim disjE exE conjE)
    fix k
    assume k: "k \<le> 4" "?bv = 10 # take k [20, 40, 70, 100]" "k = 4 \<longrightarrow> ?done"
    assume rest: "?bv = [10] \<Longrightarrow> thesis" "?bv = [10, 20] \<Longrightarrow> thesis"
      "?bv = [10, 20, 40] \<Longrightarrow> thesis" "?bv = [10, 20, 40, 70] \<Longrightarrow> thesis"
      "?bv = [10, 20, 40, 70, 100] \<Longrightarrow> ?done \<Longrightarrow> thesis"
    from k(1) consider "k = 0" | "k = 1" | "k = 2" | "k = 3" | "k = 4" by arith
    then show thesis
    proof cases
      case 1 with k rest(1) show thesis by simp
    next
      case 2 with k rest(2) show thesis by simp
    next
      case 3 with k rest(3) show thesis by (simp add: numeral_2_eq_2)
    next
      case 4 with k rest(4) show thesis by (simp add: numeral_3_eq_3)
    next
      case 5 with k rest(5) show thesis by simp
    qed
  qed
  then have "prefix ?bv [10, 20, 40, 70, 100] \<and> sorted ?bv \<and>
      (\<forall>v\<in>set ?bv. 0 \<le> v \<and> v \<le> 100) \<and> (100 \<in> set ?bv \<longrightarrow> ?done)"
    by cases simp_all
  then show ?thesis
    using tasks_weights [of env f] by fastforce
qed

theorem progress_monotone_witness:
  "100 \<in> set (bar_values
      (trace (snd (main (mock_env '''' (Exited 0) no_fault) (scan_flags False) (initial project))))) \<and>
   sorted (bar_values
      (trace (snd (main (mock_env '''' (Exited 0) no_fault) (scan_flags False) (initial project))))) \<and>
   fst (main (mock_env '''' (Exited 0) no_fault) (scan_flags False) (initial project)) = 0"
proof -
  have v: "bar_values
      (trace (snd (main (mock_env '''' (Exited 0) no_fault) (scan_flags False) (initial project)))) =
      [10, 20, 40, 70, 100]"
    by code_simp
  then have "100 \<in> set (bar_values
      (trace (snd (main (mock_env '''' (Exited 0) no_fault) (scan_flags False) (initial project)))))"
    by simp
  with progress_monotone [OF surjective_pairing,
      of "mock_env '''' (Exited 0) no_fault" "scan_flags False" project]
  show ?thesis by blast
qed

section \<open>The vulnerability scan needs the SBOM\<close>

text \<open>
  Claim C9. The vulnerability-scan stage requires the SBOM file to exist. If the SBOM
  path does not resolve in the file tree (a component is missing, or a file stands where
  a directory is needed), \<^verbatim>\<open>runOSVScanner\<close> returns an error that is not the error of
  a scanner run: it is \<open>SBOMNotFound\<close>, or the failure of \<^verbatim>\<open>filepath.Abs\<close>, or the
  failure to create the report file. The world it returns is the world it was given, so
  no scanner process was started and no file was written. When the path is plainly
  missing and \<^verbatim>\<open>filepath.Abs\<close> works, the error is \<open>SBOMNotFound\<close>.
\<close>

theorem scan_requires_sbom:
  assumes "lookup (fs w) sbomPath = Inl e"
  shows "\<exists>err. runOSVScanner env sbomPath ex w = (Some err, w) \<and>
           (err = SBOMNotFound sbomPath \<or> (\<exists>x. err = AbsPathFailed x) \<or>
            (\<exists>x. err = CreateOutputFailed x)) \<and>
           (e = ENOENT \<and> fault env (Abs sbomPath) = None \<longrightarrow> err = SBOMNotFound sbomPath)"
proof (cases "fault env (Abs sbomPath)")
  case (Some x)
  then show ?thesis by (simp add: runOSVScanner_def filepath_Abs_def)
next
  case None
  note abs1 = filepath_Abs_ok [OF None]
  show ?thesis
  proof (cases "e = ENOENT")
    case True
    with assms abs1 show ?thesis by (simp add: runOSVScanner_def os_Stat_lookup)
  next
    case False
    with assms lookup_errno have nd: "lookup (fs w) sbomPath = Inl ENOTDIR" by blast
    then obtain x where cr: "os_Create env (report_path sbomPath) w = (Some x, w)"
      using os_Create_unresolved by blast
    show ?thesis
    proof (cases "fault env (Abs (report_path sbomPath))")
      case (Some y)
      with abs1 nd False show ?thesis
        by (simp add: runOSVScanner_def os_Stat_lookup filepath_Abs_def)
    next
      case n2: None
      with abs1 nd cr False show ?thesis
        by (simp add: runOSVScanner_def os_Stat_lookup filepath_Abs_def)
    qed
  qed
qed

theorem scan_requires_sbom_witness:
  "lookup (fs (initial project)) [''out'', ''sbom.xml''] = Inl ENOENT \<and>
   runOSVScanner (mock_env '''' (Exited 0) no_fault) [''out'', ''sbom.xml''] False (initial project) =
     (Some (SBOMNotFound [''out'', ''sbom.xml'']), initial project)"
proof -
  have h: "lookup (fs (initial project)) [''out'', ''sbom.xml''] = Inl ENOENT"
    by (simp add: initial_def project_def)
  have "fault (mock_env '''' (Exited 0) no_fault) (Abs [''out'', ''sbom.xml'']) = None"
    by (simp add: mock_env_def no_fault_def)
  with scan_requires_sbom [OF h, of "mock_env '''' (Exited 0) no_fault" False] h show ?thesis
    by auto
qed

section \<open>The report file of the scan\<close>

text \<open>
  Claim C10, as amended. In the vulnerability-scan stage the report file (the SBOM path
  with its extension replaced by \<^verbatim>\<open>-vulnerabilities.json\<close>) is created, truncating
  any existing file, before the scanner process is launched. Consequently, whenever the
  stage proceeds past the SBOM-existence check and the report file is created
  (\<^verbatim>\<open>filepath.Abs\<close> and \<^verbatim>\<open>os.Create\<close> of the report path succeed), the report file
  exists, empty, in the tree the scanner is started in, the scanner is started exactly
  once, and the report file exists after the stage, even if the scanner fails to
  launch or the stage ends in a fatal or advisory error, unless the scanner process
  itself has removed it: the stage does nothing to the tree after the launch, so what
  is at the report path afterwards is what the scanner left there, and the empty file
  when the scanner did not start.
\<close>

theorem report_created_before_scan:
  assumes "fault env (Abs sbomPath) = None"
    and "\<not> os_IsNotExist (os_Stat sbomPath w)"
    and "fault env (Abs (report_path sbomPath)) = None"
    and "os_Create env (report_path sbomPath) w = (None, w1)"
    and "tool env (osv_scanner_cmd sbomPath (report_path sbomPath)) (fs w1) = (oc, out, r)"
    and "runOSVScanner env sbomPath ex w = (res, w')"
  shows "lookup (fs w1) (report_path sbomPath) = Inr (File '''') \<and>
         runs (trace w') =
           runs (trace w) @ [(osv_scanner_cmd sbomPath (report_path sbomPath), oc)] \<and>
         fs w' = (if oc = LaunchFailure then fs w1 else r) \<and>
         (oc = LaunchFailure \<longrightarrow> lookup (fs w') (report_path sbomPath) = Inr (File '''')) \<and>
         (oc = LaunchFailure \<or> (\<exists>c. lookup r (report_path sbomPath) = Inr (File c)) \<longrightarrow>
            (\<exists>c. lookup (fs w') (report_path sbomPath) = Inr (File c)))"
proof -
  note created = os_Create_file [OF assms(4)]
  from os_Create_world [OF assms(4)] have tr: "trace w1 = trace w" by simp
  from assms(5) have "start env (osv_scanner_cmd sbomPath (report_path sbomPath)) w1 =
      (oc, if oc = LaunchFailure then '''' else out,
       if oc = LaunchFailure then emit (Exec (osv_scanner_cmd sbomPath (report_path sbomPath)) oc) w1
       else (emit (Exec (osv_scanner_cmd sbomPath (report_path sbomPath)) oc) w1)\<lparr>fs := r\<rparr>)"
    by (cases oc) (simp_all add: start_def)
  with assms(1-4,6) tr created show ?thesis
    by (auto simp: runOSVScanner_def filepath_Abs_ok Let_def cmd_Run_def runs_def
        split: if_splits option.splits)
qed

theorem report_created_before_scan_witness:
  "runs (trace (snd (runOSVScanner (mock_env '''' (Exited 2) no_fault) [''out'', ''sbom.xml''] False
     (initial project_sbom)))) =
     [(osv_scanner_cmd [''out'', ''sbom.xml''] [''out'', ''sbom-vulnerabilities.json''], Exited 2)] \<and>
   lookup
     (fs (snd (runOSVScanner (mock_env '''' (Exited 2) no_fault) [''out'', ''sbom.xml''] False
        (initial project_sbom))))
     [''out'', ''sbom-vulnerabilities.json''] = Inr (File '''') \<and>
   lookup
     (fs (snd (runOSVScanner (mock_env '''' (Exited 1) no_fault) [''out'', ''sbom.xml''] False
        (initial project_sbom))))
     [''out'', ''sbom-vulnerabilities.json''] = Inr (File '''') \<and>
   lookup
     (fs (snd (runOSVScanner (mock_env '''' LaunchFailure no_fault) [''out'', ''sbom.xml''] False
        (initial project_sbom))))
     [''out'', ''sbom-vulnerabilities.json''] = Inr (File '''')"
proof -
  let ?r1 = "Dir [(''pom.xml'', File ''<project/>''),
                (''out'', Dir [(''sbom.xml'', File ''<bom/>''),
                               (''sbom-vulnerabilities.json'', File '''')])]"
  let ?w1 = "\<lparr>fs = ?r1, trace = []\<rparr>"
  have rp: "report_path [''out'', ''sbom.xml''] = [''out'', ''sbom-vulnerabilities.json'']"
    using report_path_sbom [of "[''out'']"] by simp
  have b: "\<not> os_IsNotExist (os_Stat [''out'', ''sbom.xml''] (initial project_sbom))"
    by code_simp
  have crashed: "runs (trace (snd (runOSVScanner (mock_env '''' (Exited 2) no_fault)
      [''out'', ''sbom.xml''] False (initial project_sbom)))) =
      [(osv_scanner_cmd [''out'', ''sbom.xml''] [''out'', ''sbom-vulnerabilities.json''], Exited 2)] \<and>
    lookup
      (fs (snd (runOSVScanner (mock_env '''' (Exited 2) no_fault) [''out'', ''sbom.xml''] False
         (initial project_sbom))))
      [''out'', ''sbom-vulnerabilities.json''] = Inr (File '''')"
  proof -
    let ?env = "mock_env '''' (Exited 2) no_fault"
    have a: "fault ?env (Abs [''out'', ''sbom.xml'']) = None"
      "fault ?env (Abs (report_path [''out'', ''sbom.xml''])) = None"
      by (simp_all add: mock_env_def no_fault_def)
    have c: "os_Create ?env (report_path [''out'', ''sbom.xml'']) (initial project_sbom) =
        (None, ?w1)"
      unfolding rp by code_simp
    have d: "tool ?env (osv_scanner_cmd [''out'', ''sbom.xml''] (report_path [''out'', ''sbom.xml'']))
        (fs ?w1) = (Exited 2, '''', ?r1)"
      unfolding rp by (simp add: mock_env_def mock_tool_def osv_scanner_cmd_def)
    from report_created_before_scan [OF a(1) b a(2) c d surjective_pairing, where ex = False]
    show ?thesis by (simp add: rp initial_def runs_def)
  qed
  have advisory: "lookup
      (fs (snd (runOSVScanner (mock_env '''' (Exited 1) no_fault) [''out'', ''sbom.xml''] False
         (initial project_sbom))))
      [''out'', ''sbom-vulnerabilities.json''] = Inr (File '''')"
  proof -
    let ?env = "mock_env '''' (Exited 1) no_fault"
    have a: "fault ?env (Abs [''out'', ''sbom.xml'']) = None"
      "fault ?env (Abs (report_path [''out'', ''sbom.xml''])) = None"
      by (simp_all add: mock_env_def no_fault_def)
    have c: "os_Create ?env (report_path [''out'', ''sbom.xml'']) (initial project_sbom) =
        (None, ?w1)"
      unfolding rp by code_simp
    have d: "tool ?env (osv_scanner_cmd [''out'', ''sbom.xml''] (report_path [''out'', ''sbom.xml'']))
        (fs ?w1) = (Exited 1, '''', ?r1)"
      unfolding rp by (simp add: mock_env_def mock_tool_def osv_scanner_cmd_def)
    from report_created_before_scan [OF a(1) b a(2) c d surjective_pairing, where ex = False]
    show ?thesis by (simp add: rp)
  qed
  have missing: "lookup
      (fs (snd (runOSVScanner (mock_env '''' LaunchFailure no_fault) [''out'', ''sbom.xml''] False
         (initial project_sbom))))
      [''out'', ''sbom-vulnerabilities.json''] = Inr (File '''')"
  proof -
    let ?env = "mock_env '''' LaunchFailure no_fault"
    have a: "fault ?env (Abs [''out'', ''sbom.xml'']) = None"
      "fault ?env (Abs (report_path [''out'', ''sbom.xml''])) = None"
      by (simp_all add: mock_env_def no_fault_def)
    have c: "os_Create ?env (report_path [''out'', ''sbom.xml'']) (initial project_sbom) =
        (None, ?w1)"
      unfolding rp by code_simp
    have d: "tool ?env (osv_scanner_cmd [''out'', ''sbom.xml''] (report_path [''out'', ''sbom.xml'']))
        (fs ?w1) = (LaunchFailure, '''', ?r1)"
      unfolding rp by (simp add: mock_env_def mock_tool_def osv_scanner_cmd_def)
    from report_created_before_scan [OF a(1) b a(2) c d surjective_pairing, where ex = False]
    show ?thesis by (simp add: rp)
  qed
  from crashed advisory missing show ?thesis by blast
qed

text \<open>
  The claim as it was stated fails in two ways. The stage can pass the SBOM-existence
  check and end with a fatal error before there is a report file: \<^verbatim>\<open>os.Create\<close> is
  refused by the output directory, or finds a directory of the report's name, or
  \<^verbatim>\<open>filepath.Abs\<close> of the report path fails. And the stage takes no second look at the
  report: with a scanner that removes the file its output goes to and exits with status
  0, the stage logs the report as written and returns \<^verbatim>\<open>nil\<close> with no report file in
  the output directory.
\<close>

theorem report_missing_counterexample:
  "\<not> os_IsNotExist (os_Stat [''out'', ''sbom.xml''] (initial project_sbom)) \<and>
   runOSVScanner (mock_env '''' (Exited 0) (deny (Create [''out'', ''sbom-vulnerabilities.json''])))
     [''out'', ''sbom.xml''] False (initial project_sbom) =
     (Some (CreateOutputFailed EACCES), initial project_sbom) \<and>
   runOSVScanner (mock_env '''' (Exited 0) (deny (Abs [''out'', ''sbom-vulnerabilities.json''])))
     [''out'', ''sbom.xml''] False (initial project_sbom) =
     (Some (AbsPathFailed EACCES), initial project_sbom) \<and>
   lookup (fs (initial project_sbom)) [''out'', ''sbom-vulnerabilities.json''] = Inl ENOENT \<and>
   \<not> os_IsNotExist (os_Stat [''out'', ''sbom.xml''] (initial project_blocked)) \<and>
   runOSVScanner (mock_env '''' (Exited 0) no_fault) [''out'', ''sbom.xml''] False
     (initial project_blocked) =
     (Some (CreateOutputFailed EISDIR), initial project_blocked) \<and>
   lookup (fs (initial project_blocked)) [''out'', ''sbom-vulnerabilities.json''] = Inr (Dir []) \<and>
   runOSVScanner removing_env [''out'', ''sbom.xml''] False (initial project_sbom) =
     (None,
      \<lparr>fs = project_sbom,
       trace =
         [Exec (osv_scanner_cmd [''out'', ''sbom.xml''] [''out'', ''sbom-vulnerabilities.json''])
            (Exited 0),
          Log Info (ReportWritten [''out'', ''sbom-vulnerabilities.json''])]\<rparr>)"
  by code_simp

end
